(* ===== verification/Prelude.thy ===== *)
theory Prelude
  imports Main
begin

text \<open>
  Shared vocabulary of the development: the Python list and set primitives that
  \<open>src/main.py\<close> uses, with their failure modes written out. Python raises where
  HOL would return an unspecified value, so every primitive that can raise returns
  \<open>py_error + 'a\<close>, with \<open>Inl\<close> the exception.
  \<^item> \<open>py_idx\<close> is Python's list index resolution: \<open>xs[i]\<close> is valid for
    \<open>-len(xs) \<le> i < len(xs)\<close>, a negative index counts from the end;
  \<^item> \<open>py_get\<close> is \<open>xs[i]\<close>, \<open>py_append_at\<close> is \<open>xss[i].append(x)\<close>;
  \<^item> \<open>py_pop\<close> is \<open>xs.pop()\<close> with its result dropped, \<open>py_set_remove\<close> is
    \<open>s.remove(x)\<close> (a \<open>KeyError\<close> when \<open>x\<close> is absent);
  \<^item> \<open>py_truthy\<close> is the truth value of an optional list in \<open>if result:\<close>
    (\<open>None\<close> and \<open>[]\<close> are false);
  \<^item> \<open>py_range\<close> is \<open>range(n)\<close> on Python's unbounded integers;
  \<^item> \<open>first_opt\<close> is the first element of a list, if any: the search's
    "stop at the first success" read as a function of the list of all successes.
  The collection \<open>py_eval\<close> gathers the unfolding rules that evaluate these
  primitives on concrete values with \<open>simp\<close>.
\<close>

named_theorems py_eval "unfolding rules that evaluate the Python primitives on concrete values"

datatype py_error = IndexError | KeyError

definition py_idx :: "nat \<Rightarrow> int \<Rightarrow> nat option" where
  "py_idx len i =
     (if 0 \<le> i \<and> i < int len then Some (nat i)
      else if - int len \<le> i \<and> i < 0 then Some (nat (int len + i))
      else None)"

definition py_get :: "'a list \<Rightarrow> int \<Rightarrow> py_error + 'a" where
  "py_get xs i = (case py_idx (length xs) i of
                    None \<Rightarrow> Inl IndexError
                  | Some k \<Rightarrow> Inr (xs ! k))"

definition py_append_at :: "'a list list \<Rightarrow> int \<Rightarrow> 'a \<Rightarrow> py_error + 'a list list" where
  "py_append_at xss i x = (case py_idx (length xss) i of
                             None \<Rightarrow> Inl IndexError
                           | Some k \<Rightarrow> Inr (xss[k := xss ! k @ [x]]))"

definition py_pop :: "'a list \<Rightarrow> py_error + 'a list" where
  "py_pop xs = (if xs = [] then Inl IndexError else Inr (butlast xs))"

definition py_set_remove :: "'a \<Rightarrow> 'a set \<Rightarrow> py_error + 'a set" where
  "py_set_remove x s = (if x \<in> s then Inr (s - {x}) else Inl KeyError)"

fun py_truthy :: "'a list option \<Rightarrow> bool" where
  "py_truthy None = False"
| "py_truthy (Some xs) = (xs \<noteq> [])"

definition py_range :: "int \<Rightarrow> int list" where
  "py_range k = [0..k - 1]"

fun first_opt :: "'a list \<Rightarrow> 'a option" where
  "first_opt [] = None"
| "first_opt (x # xs) = Some x"

declare py_idx_def [py_eval] py_get_def [py_eval] py_append_at_def [py_eval]
  py_pop_def [py_eval] py_set_remove_def [py_eval] py_range_def [py_eval] upto.simps [py_eval]

subsection \<open>Index resolution\<close>

lemma py_idx_nonneg [simp]:
  "0 \<le> i \<Longrightarrow> i < int len \<Longrightarrow> py_idx len i = Some (nat i)"
  by (simp add: py_idx_def)

lemma py_idx_None_iff:
  "py_idx len i = None \<longleftrightarrow> i < - int len \<or> int len \<le> i"
  by (auto simp: py_idx_def)

lemma py_idx_Some_less: "py_idx len i = Some k \<Longrightarrow> k < len"
  by (auto simp: py_idx_def split: if_splits)

lemma py_get_nth [simp]:
  "0 \<le> i \<Longrightarrow> i < int (length xs) \<Longrightarrow> py_get xs i = Inr (xs ! nat i)"
  by (simp add: py_get_def)

lemma py_get_Inl: "py_get xs i = Inl e \<longleftrightarrow> e = IndexError \<and> py_idx (length xs) i = None"
  by (auto simp: py_get_def split: option.splits)

lemma py_get_set: "py_get xs i = Inr x \<Longrightarrow> x \<in> set xs"
  by (auto simp: py_get_def dest: py_idx_Some_less split: option.splits)

lemma py_append_at_nth [simp]:
  "0 \<le> i \<Longrightarrow> i < int (length xss) \<Longrightarrow>
   py_append_at xss i x = Inr (xss[nat i := xss ! nat i @ [x]])"
  by (simp add: py_append_at_def)

lemma py_append_at_error:
  "py_idx (length xss) i = None \<Longrightarrow> py_append_at xss i x = Inl IndexError"
  by (simp add: py_append_at_def)

lemma py_append_at_length:
  "py_append_at xss i x = Inr yss \<Longrightarrow> length yss = length xss"
  by (auto simp: py_append_at_def split: option.splits)

subsection \<open>Stack and set primitives\<close>

lemma py_pop_snoc [simp]: "py_pop (xs @ [x]) = Inr xs"
  by (simp add: py_pop_def)

lemma py_set_remove_insert [simp]:
  "x \<notin> s \<Longrightarrow> py_set_remove x (insert x s) = Inr s"
  by (auto simp: py_set_remove_def)

lemma set_py_range [simp]: "set (py_range k) = {0..<k}"
  by (auto simp: py_range_def)

lemma replicate_numeral [py_eval]: "replicate (numeral k) x = x # replicate (pred_numeral k) x"
  by (simp add: numeral_eq_Suc)

subsection \<open>First element\<close>

lemma first_opt_append:
  "first_opt (xs @ ys) = (case first_opt xs of None \<Rightarrow> first_opt ys | Some x \<Rightarrow> Some x)"
  by (cases xs) simp_all

lemma first_opt_None_iff [simp]: "first_opt xs = None \<longleftrightarrow> xs = []"
  by (cases xs) simp_all

lemma first_opt_Some_set: "first_opt xs = Some x \<Longrightarrow> x \<in> set xs"
  by (cases xs) simp_all

lemma first_opt_concat_cong:
  assumes "\<And>w. w \<in> set xs \<Longrightarrow> first_opt (f w) = first_opt (h w) \<and> set (f w) = set (h w)"
  shows "first_opt (concat (map f xs)) = first_opt (concat (map h xs)) \<and>
         set (concat (map f xs)) = set (concat (map h xs))"
  using assms
proof (induction xs)
  case Nil
  then show ?case by simp
next
  case (Cons x xs)
  then have fx: "first_opt (f x) = first_opt (h x)" "set (f x) = set (h x)" by simp_all
  have "f x = [] \<longleftrightarrow> h x = []" using fx(2) by auto
  with Cons fx show ?case by (auto simp: first_opt_append split: option.splits)
qed

lemma first_opt_concat_dup:
  assumes "set ys \<subseteq> set xs"
  shows "first_opt (concat (map f (xs @ ys))) = first_opt (concat (map f xs)) \<and>
         set (concat (map f (xs @ ys))) = set (concat (map f xs))"
proof -
  have sub: "set (concat (map f ys)) \<subseteq> set (concat (map f xs))" using assms by auto
  have "first_opt (concat (map f xs) @ concat (map f ys)) = first_opt (concat (map f xs))"
  proof (cases "concat (map f xs) = []")
    case True
    with sub have ys0: "concat (map f ys) = []" by (metis set_empty subset_empty)
    show ?thesis by (simp only: True ys0 append_Nil)
  next
    case False
    then obtain x r where c: "concat (map f xs) = x # r" by (cases "concat (map f xs)") auto
    show ?thesis by (simp only: c append_Cons first_opt.simps)
  qed
  with sub show ?thesis by auto
qed

end
