(* ===== verification/Graph.thy ===== *)
theory Graph
  imports Prelude
begin

text \<open>
  The \<open>Graph\<close> class of \<open>src/main.py\<close> (lines 3--12): a vertex count \<open>n\<close>, a
  directedness flag and the adjacency lists \<open>adj\<close>, one Python list per vertex, in
  insertion order. \<open>graph_init\<close> is \<open>Graph.__init__\<close>, \<open>add_edge\<close> is
  \<open>Graph.add_edge\<close> and \<open>add_edges\<close> is a sequence of \<open>add_edge\<close> calls as the
  driver makes them. \<open>add_edge\<close> returns the graph as it is after the call together
  with the exception it raised, if any: the undirected case can raise after it has
  already appended to \<open>adj[u]\<close>, and that partial update is part of the result.
  \<open>Graph.show\<close> is modelled with the other text output in \<open>Output\<close>.

  The lemmas give the functional behaviour of \<open>add_edge\<close> on every branch, the
  well-formedness invariant \<open>wf_graph\<close> (adjacency of length \<open>n\<close>, every stored
  neighbour a vertex) that \<open>graph_init\<close> establishes and valid insertions keep, the
  symmetry invariant \<open>sym_adj\<close> of undirected graphs, and the refinement of
  \<open>add_edge\<close> to insertion into the abstract edge set \<open>edges_of\<close>.
\<close>

record graph =
  n :: int
  directed :: bool
  adj :: "int list list"

definition graph_init :: "int \<Rightarrow> bool \<Rightarrow> graph" where
  "graph_init k d = \<lparr>n = k, directed = d, adj = replicate (nat k) []\<rparr>"

definition add_edge :: "graph \<Rightarrow> int \<Rightarrow> int \<Rightarrow> py_error option \<times> graph" where
  "add_edge g u v =
     (case py_append_at (adj g) u v of
        Inl e \<Rightarrow> (Some e, g)
      | Inr a1 \<Rightarrow>
          (if \<not> directed g then
             (case py_append_at a1 v u of
                Inl e \<Rightarrow> (Some e, g\<lparr>adj := a1\<rparr>)
              | Inr a2 \<Rightarrow> (None, g\<lparr>adj := a2\<rparr>))
           else (None, g\<lparr>adj := a1\<rparr>)))"

fun add_edges :: "graph \<Rightarrow> (int \<times> int) list \<Rightarrow> py_error option \<times> graph" where
  "add_edges g [] = (None, g)"
| "add_edges g ((u, v) # es) =
     (case add_edge g u v of
        (None, g') \<Rightarrow> add_edges g' es
      | (Some e, g') \<Rightarrow> (Some e, g'))"

definition build_graph :: "int \<Rightarrow> bool \<Rightarrow> (int \<times> int) list \<Rightarrow> py_error option \<times> graph" where
  "build_graph k d es = add_edges (graph_init k d) es"

subsection \<open>Invariants and the abstract edge set\<close>

definition is_vertex :: "graph \<Rightarrow> int \<Rightarrow> bool" where
  "is_vertex g v \<longleftrightarrow> 0 \<le> v \<and> v < n g"

definition wf_graph :: "graph \<Rightarrow> bool" where
  "wf_graph g \<longleftrightarrow> length (adj g) = nat (n g) \<and> list_all (list_all (is_vertex g)) (adj g)"

definition nbrs :: "graph \<Rightarrow> int \<Rightarrow> int list" where
  "nbrs g u = adj g ! nat u"

definition is_edge :: "graph \<Rightarrow> int \<Rightarrow> int \<Rightarrow> bool" where
  "is_edge g u v \<longleftrightarrow> is_vertex g u \<and> v \<in> set (nbrs g u)"

definition edges_of :: "graph \<Rightarrow> (int \<times> int) set" where
  "edges_of g = {(u, v). is_edge g u v}"

definition sym_adj :: "graph \<Rightarrow> bool" where
  "sym_adj g \<longleftrightarrow>
     list_all (\<lambda>u. list_all (\<lambda>v. count_list (nbrs g u) v = count_list (nbrs g v) u)
                              (py_range (n g))) (py_range (n g))"

definition valid_edge :: "graph \<Rightarrow> int \<times> int \<Rightarrow> bool" where
  "valid_edge g e \<longleftrightarrow> is_vertex g (fst e) \<and> is_vertex g (snd e)"

text \<open>The adjacency after a successful insertion of a valid edge.\<close>

definition added_adj :: "graph \<Rightarrow> int \<Rightarrow> int \<Rightarrow> int list list" where
  "added_adj g u v =
     (let a1 = (adj g)[nat u := adj g ! nat u @ [v]]
      in if directed g then a1 else a1[nat v := a1 ! nat v @ [u]])"

declare build_graph_def [py_eval] graph_init_def [py_eval] add_edge_def [py_eval] is_vertex_def [py_eval]
  wf_graph_def [py_eval] nbrs_def [py_eval] is_edge_def [py_eval] sym_adj_def [py_eval]
  valid_edge_def [py_eval]

lemma is_vertex_idx: "is_vertex g v \<Longrightarrow> wf_graph g \<Longrightarrow> 0 \<le> v \<and> v < int (length (adj g))"
  by (simp add: is_vertex_def wf_graph_def)

lemma wf_graph_nbrs:
  "wf_graph g \<Longrightarrow> is_vertex g u \<Longrightarrow> w \<in> set (nbrs g u) \<Longrightarrow> is_vertex g w"
  by (auto simp: wf_graph_def nbrs_def is_vertex_def list_all_iff)

lemma wf_graph_py_get:
  "wf_graph g \<Longrightarrow> is_vertex g u \<Longrightarrow> py_get (adj g) u = Inr (nbrs g u)"
  by (simp add: is_vertex_def wf_graph_def nbrs_def)

lemma sym_adj_iff:
  "sym_adj g \<longleftrightarrow>
     (\<forall>u v. is_vertex g u \<longrightarrow> is_vertex g v \<longrightarrow> count_list (nbrs g u) v = count_list (nbrs g v) u)"
  by (auto simp: sym_adj_def list_all_iff is_vertex_def)

subsection \<open>Construction\<close>

lemma graph_init_wf: "wf_graph (graph_init k d)"
  by (simp add: graph_init_def wf_graph_def list_all_iff)

lemma graph_init_edges: "edges_of (graph_init k d) = {}"
  by (auto simp: edges_of_def is_edge_def graph_init_def nbrs_def is_vertex_def)

lemma graph_init_sym: "sym_adj (graph_init k d)"
  by (simp add: sym_adj_iff graph_init_def nbrs_def is_vertex_def)

subsection \<open>Functional behaviour of add_edge\<close>

lemma add_edge_valid:
  assumes "wf_graph g" "is_vertex g u" "is_vertex g v"
  shows "add_edge g u v = (None, g\<lparr>adj := added_adj g u v\<rparr>)"
  using assms by (simp add: add_edge_def added_adj_def is_vertex_def wf_graph_def Let_def)

lemma add_edge_frame [simp]:
  "n (snd (add_edge g u v)) = n g" "directed (snd (add_edge g u v)) = directed g"
  by (auto simp: add_edge_def split: sum.splits)

lemma length_added_adj [simp]: "length (added_adj g u v) = length (adj g)"
  by (simp add: added_adj_def Let_def)

lemma nbrs_added_adj:
  assumes "wf_graph g" "is_vertex g u" "is_vertex g v" "is_vertex g x"
  shows "added_adj g u v ! nat x =
           nbrs g x @ (if x = u then [v] else []) @
             (if \<not> directed g \<and> x = v then [u] else [])"
  using assms
  by (auto simp: added_adj_def nbrs_def is_vertex_def wf_graph_def Let_def nth_list_update
                 nat_eq_iff)

lemma nbrs_add_edge:
  assumes "wf_graph g" "is_vertex g u" "is_vertex g v" "is_vertex g x"
  shows "nbrs (snd (add_edge g u v)) x =
           nbrs g x @ (if x = u then [v] else []) @
             (if \<not> directed g \<and> x = v then [u] else [])"
  using assms by (simp add: add_edge_valid nbrs_added_adj nbrs_def)

lemma is_vertex_adj_update [simp]: "is_vertex (g\<lparr>adj := a\<rparr>) = is_vertex g"
  by (simp add: is_vertex_def fun_eq_iff)

lemma is_vertex_add_edge [simp]: "is_vertex (snd (add_edge g u v)) = is_vertex g"
  by (simp add: is_vertex_def fun_eq_iff)

lemma wf_graph_iff_nbrs:
  "wf_graph g \<longleftrightarrow>
     length (adj g) = nat (n g) \<and> (\<forall>x. is_vertex g x \<longrightarrow> list_all (is_vertex g) (nbrs g x))"
proof
  assume "wf_graph g"
  then show "length (adj g) = nat (n g) \<and> (\<forall>x. is_vertex g x \<longrightarrow> list_all (is_vertex g) (nbrs g x))"
    by (auto simp: wf_graph_def list_all_iff nbrs_def is_vertex_def)
next
  assume a: "length (adj g) = nat (n g) \<and> (\<forall>x. is_vertex g x \<longrightarrow> list_all (is_vertex g) (nbrs g x))"
  have "list_all (is_vertex g) l" if "l \<in> set (adj g)" for l
  proof -
    from that obtain i where i: "i < length (adj g)" "l = adj g ! i"
      by (auto simp: in_set_conv_nth)
    with a have "is_vertex g (int i)" by (simp add: is_vertex_def)
    with a have "list_all (is_vertex g) (nbrs g (int i))" by blast
    with i show ?thesis by (simp add: nbrs_def)
  qed
  with a show "wf_graph g" by (simp add: wf_graph_def list_all_iff)
qed

lemma add_edge_wf:
  assumes "wf_graph g" "is_vertex g u" "is_vertex g v"
  shows "wf_graph (snd (add_edge g u v))"
proof -
  have "length (adj (snd (add_edge g u v))) = nat (n g)"
    using assms by (simp add: add_edge_valid wf_graph_def)
  moreover have "list_all (is_vertex g) (nbrs (snd (add_edge g u v)) x)" if "is_vertex g x" for x
    using assms that wf_graph_iff_nbrs[of g] by (simp add: nbrs_add_edge)
  ultimately show ?thesis by (simp add: wf_graph_iff_nbrs)
qed

lemma add_edge_edges:
  assumes "wf_graph g" "is_vertex g u" "is_vertex g v"
  shows "edges_of (snd (add_edge g u v)) =
           edges_of g \<union> {(u, v)} \<union> (if directed g then {} else {(v, u)})"
  using assms by (auto simp: edges_of_def is_edge_def nbrs_add_edge split: if_splits)

lemma add_edge_sym:
  assumes "wf_graph g" "\<not> directed g" "sym_adj g" "is_vertex g u" "is_vertex g v"
  shows "sym_adj (snd (add_edge g u v))"
  using assms by (auto simp: sym_adj_iff nbrs_add_edge)

lemma add_edges_Cons_valid:
  "wf_graph g \<Longrightarrow> valid_edge g (u, v) \<Longrightarrow> add_edges g ((u, v) # es) = add_edges (snd (add_edge g u v)) es"
  by (simp add: valid_edge_def add_edge_valid)

lemma valid_edge_add_edge [simp]: "valid_edge (snd (add_edge g u v)) = valid_edge g"
  by (simp add: valid_edge_def fun_eq_iff)

lemma add_edges_run:
  assumes "wf_graph g" "list_all (valid_edge g) es"
  shows "\<exists>g'. add_edges g es = (None, g') \<and> wf_graph g' \<and> n g' = n g \<and>
           directed g' = directed g \<and>
           edges_of g' = edges_of g \<union> set es \<union> (if directed g then {} else (set es)\<inverse>)"
  using assms
proof (induction es arbitrary: g)
  case Nil
  then show ?case by simp
next
  case (Cons e es)
  obtain u v where e: "e = (u, v)" by (cases e)
  let ?g1 = "snd (add_edge g u v)"
  from Cons.prems e have uv: "is_vertex g u" "is_vertex g v"
    by (simp_all add: valid_edge_def)
  with Cons.prems have wf1: "wf_graph ?g1" by (simp add: add_edge_wf)
  from Cons.prems e have "list_all (valid_edge ?g1) es" by simp
  from Cons.IH[OF wf1 this] obtain g' where g': "add_edges ?g1 es = (None, g')" "wf_graph g'"
    "n g' = n g" "directed g' = directed g"
    "edges_of g' = edges_of ?g1 \<union> set es \<union> (if directed g then {} else (set es)\<inverse>)"
    by auto
  from Cons.prems e have "add_edges g (e # es) = add_edges ?g1 es"
    using add_edges_Cons_valid[of g u v es] by simp
  with g' Cons.prems uv e show ?case by (auto simp: add_edge_edges)
qed

lemma add_edges_sym_run:
  assumes "wf_graph g" "\<not> directed g" "sym_adj g" "list_all (valid_edge g) es"
  shows "sym_adj (snd (add_edges g es))"
  using assms
proof (induction es arbitrary: g)
  case Nil
  then show ?case by simp
next
  case (Cons e es)
  obtain u v where e: "e = (u, v)" by (cases e)
  with Cons.prems have uv: "is_vertex g u" "is_vertex g v"
    by (simp_all add: valid_edge_def)
  with Cons.prems have "sym_adj (snd (add_edges (snd (add_edge g u v)) es))"
    by (intro Cons.IH) (simp_all add: add_edge_wf add_edge_sym e)
  moreover from Cons.prems e have "valid_edge g (u, v)" by simp
  ultimately show ?case using Cons.prems(1) e add_edges_Cons_valid[of g u v es] by simp
qed

text \<open>
  C7: a graph built as the driver builds it, \<open>Graph(k, d)\<close> followed by
  \<open>add_edge\<close> for a list of valid edges, raises nothing, is well formed with
  \<open>n = k\<close> and the requested direction, and its arcs are exactly the inserted
  edges, reversed ones added when the graph is undirected.
\<close>

theorem build_graph_refines:
  assumes "list_all (valid_edge (graph_init k d)) es"
  shows "\<exists>g. build_graph k d es = (None, g) \<and> wf_graph g \<and> n g = k \<and> directed g = d \<and>
           edges_of g = set es \<union> (if d then {} else (set es)\<inverse>)"
proof -
  have "n (graph_init k d) = k" "directed (graph_init k d) = d"
    by (simp_all add: graph_init_def)
  with add_edges_run[OF graph_init_wf assms] show ?thesis
    by (simp add: build_graph_def graph_init_edges)
qed

text \<open>
  C8: an undirected graph built from valid edges has symmetric adjacency:
  \<open>v\<close> occurs in \<open>adj[u]\<close> exactly as often as \<open>u\<close> occurs in \<open>adj[v]\<close>.
\<close>

theorem build_graph_sym:
  assumes "list_all (valid_edge (graph_init k False)) es"
  shows "sym_adj (snd (build_graph k False es))"
  unfolding build_graph_def
  by (rule add_edges_sym_run[OF graph_init_wf _ graph_init_sym assms]) (simp add: graph_init_def)

subsection \<open>Error branches\<close>

text \<open>C9: an out-of-range source index raises IndexError and leaves the graph unchanged.\<close>

theorem add_edge_bad_source:
  assumes "wf_graph g" "u < - n g \<or> n g \<le> u"
  shows "add_edge g u v = (Some IndexError, g)"
proof -
  from assms have "py_idx (length (adj g)) u = None"
    by (auto simp: wf_graph_def py_idx_None_iff)
  then show ?thesis by (simp add: add_edge_def py_append_at_error)
qed

text \<open>
  C10: in an undirected graph, a valid source and an out-of-range target raise
  IndexError only after \<open>v\<close> has been appended to \<open>adj[u]\<close>: the graph is left
  half-updated, with a stored neighbour that is not a vertex.
\<close>

theorem add_edge_partial_update:
  assumes "wf_graph g" "\<not> directed g" "is_vertex g u" "v < - n g \<or> n g \<le> v"
  shows "add_edge g u v = (Some IndexError, g\<lparr>adj := (adj g)[nat u := nbrs g u @ [v]]\<rparr>)
         \<and> \<not> wf_graph (snd (add_edge g u v))"
proof -
  have len: "length (adj g) = nat (n g)" using assms(1) by (simp add: wf_graph_def)
  from assms have "py_idx (length ((adj g)[nat u := nbrs g u @ [v]])) v = None"
    by (auto simp: len py_idx_None_iff is_vertex_def)
  with assms have eq: "add_edge g u v = (Some IndexError, g\<lparr>adj := (adj g)[nat u := nbrs g u @ [v]]\<rparr>)"
    by (simp add: add_edge_def is_vertex_def len nbrs_def py_append_at_error)
  have "\<not> is_vertex g v" using assms(4) by (auto simp: is_vertex_def)
  with assms(3) have "\<not> wf_graph (g\<lparr>adj := (adj g)[nat u := nbrs g u @ [v]]\<rparr>)"
    by (auto simp: wf_graph_iff_nbrs nbrs_def is_vertex_def len)
  with eq show ?thesis by simp
qed

text \<open>
  C11: in a directed graph the target is never checked: any integer \<open>v\<close> is stored
  in \<open>adj[u]\<close> without an exception, and an out-of-range one breaks well-formedness.
\<close>

theorem add_edge_directed_unchecked:
  assumes "wf_graph g" "directed g" "is_vertex g u"
  shows "add_edge g u v = (None, g\<lparr>adj := (adj g)[nat u := nbrs g u @ [v]]\<rparr>)
         \<and> (wf_graph (snd (add_edge g u v)) \<longleftrightarrow> is_vertex g v)"
proof -
  have len: "length (adj g) = nat (n g)" using assms(1) by (simp add: wf_graph_def)
  from assms have eq: "add_edge g u v = (None, g\<lparr>adj := (adj g)[nat u := nbrs g u @ [v]]\<rparr>)"
    by (simp add: add_edge_def is_vertex_def len nbrs_def)
  have "wf_graph (g\<lparr>adj := (adj g)[nat u := nbrs g u @ [v]]\<rparr>) \<longleftrightarrow> is_vertex g v"
    using assms(1,3) wf_graph_iff_nbrs[of g]
    by (auto simp: wf_graph_iff_nbrs nbrs_def is_vertex_def len nth_list_update)
  with eq show ?thesis by simp
qed

text \<open>
  C12: a negative source index \<open>u\<close> with \<open>-n \<le> u < 0\<close> is not rejected. Python
  resolves \<open>adj[u]\<close> to \<open>adj[n + u]\<close>, so \<open>v\<close> is appended to vertex
  \<open>n + u\<close>'s list without an exception; in an undirected graph the raw negative
  value \<open>u\<close> is then stored in \<open>adj[v]\<close>, which breaks well-formedness. Only the
  directed graph stays well formed.
\<close>

theorem add_edge_negative_alias:
  assumes "wf_graph g" "u < 0" "is_vertex g (n g + u)" "is_vertex g v"
  shows "add_edge g u v =
           (let a1 = (adj g)[nat (n g + u) := nbrs g (n g + u) @ [v]]
            in (None, g\<lparr>adj := if directed g then a1 else a1[nat v := a1 ! nat v @ [u]]\<rparr>)) \<and>
         (wf_graph (snd (add_edge g u v)) \<longleftrightarrow> directed g)"
proof -
  let ?a1 = "(adj g)[nat (n g + u) := nbrs g (n g + u) @ [v]]"
  have len: "length (adj g) = nat (n g)" using assms(1) by (simp add: wf_graph_def)
  from assms have iu: "py_idx (length (adj g)) u = Some (nat (n g + u))"
    by (auto simp: py_idx_def len is_vertex_def)
  have iv: "py_idx (length ?a1) v = Some (nat v)"
    using assms(4) by (simp add: len is_vertex_def)
  have eq: "add_edge g u v =
              (None, g\<lparr>adj := if directed g then ?a1 else ?a1[nat v := ?a1 ! nat v @ [u]]\<rparr>)"
    using iu iv by (simp add: add_edge_def py_append_at_def nbrs_def)
  have wf1: "wf_graph (g\<lparr>adj := ?a1\<rparr>)"
    using assms(1,3,4) wf_graph_iff_nbrs[of g]
    by (auto simp: wf_graph_iff_nbrs nbrs_def is_vertex_def len nth_list_update)
  have "\<not> wf_graph (g\<lparr>adj := ?a1[nat v := ?a1 ! nat v @ [u]]\<rparr>)"
  proof
    assume "wf_graph (g\<lparr>adj := ?a1[nat v := ?a1 ! nat v @ [u]]\<rparr>)"
    then have "list_all (is_vertex g) (?a1[nat v := ?a1 ! nat v @ [u]] ! nat v)"
      using assms(4) by (auto simp: wf_graph_iff_nbrs nbrs_def)
    then show False using assms(2,4) by (simp add: len is_vertex_def)
  qed
  with eq wf1 show ?thesis by (cases "directed g") (simp_all add: Let_def)
qed

end
