(* ===== verification/Output.thy ===== *)
theory Output
  imports Graph "HOL-Library.Monad_Syntax"
begin

text \<open>
  The text output of \<open>src/main.py\<close>: Python's \<open>print\<close>, the conversion \<open>str\<close> of
  the values the program prints (integers, lists of integers, \<open>None\<close>) and
  \<open>Graph.show\<close> (lines 14--19). Standard output is a byte string: the
  program's Portuguese words are written in UTF-8 (\<open>\<atilde>\<close> is the byte pair
  \<open>0xC3 0xA3\<close>), and \<open>print\<close> ends every call with the newline byte.
  \<open>graph_show\<close> returns what \<open>show\<close> wrote together with the exception that
  stopped it, if any: \<open>self.adj[i]\<close> raises when \<open>adj\<close> is shorter than \<open>n\<close>,
  after the earlier rows are printed.

  The reader \<open>read_show\<close> is not code of the repository: it recovers the
  directedness flag and the adjacency lists from the printed text, and its
  round-trip lemmas show that the text loses nothing.
\<close>

definition nl :: char where
  "nl = CHR 0x0A"

definition digit_char :: "nat \<Rightarrow> char" where
  "digit_char d = ''0123456789'' ! d"

fun dec_digits :: "nat \<Rightarrow> nat list" where
  "dec_digits k = (if k < 10 then [k] else dec_digits (k div 10) @ [k mod 10])"

declare dec_digits.simps [simp del]

definition py_str_int :: "int \<Rightarrow> string" where
  "py_str_int i =
     (if i < 0 then CHR ''-'' # map digit_char (dec_digits (nat (- i)))
      else map digit_char (dec_digits (nat i)))"

definition py_join :: "string \<Rightarrow> string list \<Rightarrow> string" where
  "py_join sep xs = (case xs of [] \<Rightarrow> [] | x # ys \<Rightarrow> x @ concat (map (\<lambda>y. sep @ y) ys))"

definition py_repr_list :: "int list \<Rightarrow> string" where
  "py_repr_list xs = ''['' @ py_join '', '' (map py_str_int xs) @ '']''"

fun py_str_opt :: "int list option \<Rightarrow> string" where
  "py_str_opt None = ''None''"
| "py_str_opt (Some xs) = py_repr_list xs"

definition py_print :: "string list \<Rightarrow> string" where
  "py_print args = py_join '' '' args @ [nl]"

definition tipo :: "bool \<Rightarrow> string" where
  "tipo d = (if d then ''Dirigido'' else ''N'' @ [CHR 0xC3, CHR 0xA3] @ ''o dirigido'')"

definition show_header :: "bool \<Rightarrow> string" where
  "show_header d = ''Grafo '' @ tipo d @ '':''"

definition show_row :: "int \<Rightarrow> int list \<Rightarrow> string" where
  "show_row i xs = ''  '' @ py_str_int i @ '' -> '' @ py_repr_list xs"

fun show_rows :: "int list list \<Rightarrow> int list \<Rightarrow> string \<times> py_error option" where
  "show_rows a [] = ([], None)"
| "show_rows a (i # is) =
     (case py_get a i of
        Inl e \<Rightarrow> ([], Some e)
      | Inr xs \<Rightarrow> (let (s, e) = show_rows a is in (py_print [show_row i xs] @ s, e)))"

definition graph_show :: "graph \<Rightarrow> string \<times> py_error option" where
  "graph_show g =
     (let header = py_print [show_header (directed g)]; (rows, e) = show_rows (adj g) (py_range (n g))
      in (case e of None \<Rightarrow> (header @ rows @ py_print [], None) | Some x \<Rightarrow> (header @ rows, Some x)))"

subsection \<open>Reading the output back\<close>

definition is_digit :: "char \<Rightarrow> bool" where
  "is_digit c \<longleftrightarrow> c \<in> set ''0123456789''"

definition digits_val :: "string \<Rightarrow> nat" where
  "digits_val ds = foldl (\<lambda>a c. 10 * a + (of_char c - 48)) 0 ds"

definition read_nat :: "string \<Rightarrow> (nat \<times> string) option" where
  "read_nat s =
     (let ds = takeWhile is_digit s in
      if ds = [] then None else Some (digits_val ds, dropWhile is_digit s))"

definition read_int :: "string \<Rightarrow> (int \<times> string) option" where
  "read_int s =
     (case s of
        c # t \<Rightarrow> if c = CHR ''-'' then map_option (\<lambda>(k, r). (- int k, r)) (read_nat t)
                 else map_option (\<lambda>(k, r). (int k, r)) (read_nat s)
      | [] \<Rightarrow> None)"

fun cut_prefix :: "string \<Rightarrow> string \<Rightarrow> string option" where
  "cut_prefix [] s = Some s"
| "cut_prefix (c # cs) [] = None"
| "cut_prefix (c # cs) (d # s) = (if c = d then cut_prefix cs s else None)"

function read_items :: "string \<Rightarrow> int list option" where
  "read_items s =
     (case read_int s of
        None \<Rightarrow> None
      | Some (i, r) \<Rightarrow>
          if r = '']'' then Some [i]
          else (case cut_prefix '', '' r of
                  None \<Rightarrow> None
                | Some t \<Rightarrow> map_option (Cons i) (read_items t)))"
  by pat_completeness auto

definition parse_list :: "string \<Rightarrow> int list option" where
  "parse_list s = do { t \<leftarrow> cut_prefix ''['' s; if t = '']'' then Some [] else read_items t }"

definition read_row :: "string \<Rightarrow> (int \<times> int list) option" where
  "read_row l = do {
     t \<leftarrow> cut_prefix ''  '' l;
     (i, r) \<leftarrow> read_int t;
     u \<leftarrow> cut_prefix '' -> '' r;
     xs \<leftarrow> parse_list u;
     Some (i, xs)
   }"

fun read_lines :: "string \<Rightarrow> string \<Rightarrow> string list option" where
  "read_lines acc [] = (if acc = [] then Some [] else None)"
| "read_lines acc (c # s) =
     (if c = nl then map_option (Cons (rev acc)) (read_lines [] s) else read_lines (c # acc) s)"

fun read_rows :: "int \<Rightarrow> string list \<Rightarrow> int list list option" where
  "read_rows k [] = Some []"
| "read_rows k (l # ls) = do {
     (i, xs) \<leftarrow> read_row l;
     if i = k then map_option (Cons xs) (read_rows (k + 1) ls) else None
   }"

definition read_tipo :: "string \<Rightarrow> bool option" where
  "read_tipo h =
     (if h = show_header True then Some True else if h = show_header False then Some False else None)"

definition read_show :: "string \<Rightarrow> (bool \<times> int list list) option" where
  "read_show s = do {
     ls \<leftarrow> read_lines [] s;
     (case ls of
        [] \<Rightarrow> None
      | h # rest \<Rightarrow> do {
          d \<leftarrow> read_tipo h;
          if rest \<noteq> [] \<and> last rest = [] then map_option (Pair d) (read_rows 0 (butlast rest))
          else None
        })
   }"

declare py_str_int_def [py_eval] digit_char_def [py_eval] py_join_def [py_eval]
  py_repr_list_def [py_eval] py_print_def [py_eval] tipo_def [py_eval] show_header_def [py_eval]
  show_row_def [py_eval] graph_show_def [py_eval]

subsection \<open>Decimal printing and its reading\<close>

lemma dec_digits_one [py_eval]: "k < 10 \<Longrightarrow> dec_digits k = [k]"
  by (simp add: dec_digits.simps)

lemma dec_digits_more [py_eval]: "\<not> k < 10 \<Longrightarrow> dec_digits k = dec_digits (k div 10) @ [k mod 10]"
  by (subst dec_digits.simps) simp

lemma dec_digits_less: "d \<in> set (dec_digits k) \<Longrightarrow> d < 10"
  by (induction k rule: dec_digits.induct) (subst (asm) dec_digits.simps, auto split: if_splits)
lemma dec_digits_ne [simp]: "dec_digits k \<noteq> []"
  by (subst dec_digits.simps) simp
lemma of_char_digit_char: "d < 10 \<Longrightarrow> of_char (digit_char d) = 48 + d"
  by (auto simp: digit_char_def less_Suc_eq numeral_eq_Suc)
lemma is_digit_digit_char [simp]: "d < 10 \<Longrightarrow> is_digit (digit_char d)"
  by (auto simp: is_digit_def digit_char_def less_Suc_eq numeral_eq_Suc)
lemma digits_val_snoc: "digits_val (ds @ [c]) = 10 * digits_val ds + (of_char c - 48)"
  by (simp add: digits_val_def)
lemma digits_val_dec_digits: "digits_val (map digit_char (dec_digits k)) = k"
proof (induction k rule: dec_digits.induct)
  case (1 k)
  show ?case
  proof (cases "k < 10")
    case True
    then show ?thesis by (simp add: dec_digits.simps digits_val_def of_char_digit_char)
  next
    case False
    then have "dec_digits k = dec_digits (k div 10) @ [k mod 10]" by (simp add: dec_digits.simps)
    then have "digits_val (map digit_char (dec_digits k)) =
                 10 * digits_val (map digit_char (dec_digits (k div 10))) + k mod 10"
      by (simp add: digits_val_snoc of_char_digit_char)
    with 1 False show ?thesis by simp
  qed
qed
lemma is_digit_dec_digits: "c \<in> set (map digit_char (dec_digits k)) \<Longrightarrow> is_digit c"
  by (auto dest: dec_digits_less)

lemma not_is_digit_minus [simp]: "\<not> is_digit CHR ''-''"
  by (simp add: is_digit_def)

lemma read_nat_digits:
  assumes "r = [] \<or> \<not> is_digit (hd r)"
  shows "read_nat (map digit_char (dec_digits k) @ r) = Some (k, r)"
proof -
  let ?ds = "map digit_char (dec_digits k)"
  have r: "takeWhile is_digit r = []" "dropWhile is_digit r = r"
    using assms by (cases r, simp_all)+
  have "takeWhile is_digit (?ds @ r) = ?ds"
    using takeWhile_append2[of ?ds is_digit r] is_digit_dec_digits[of _ k] r(1) by simp
  moreover have "dropWhile is_digit (?ds @ r) = r"
    using dropWhile_append2[of ?ds is_digit r] is_digit_dec_digits[of _ k] r(2) by simp
  ultimately show ?thesis by (simp add: read_nat_def digits_val_dec_digits)
qed
lemma read_int_py_str_int:
  assumes "r = [] \<or> \<not> is_digit (hd r)"
  shows "read_int (py_str_int i @ r) = Some (i, r)"
proof (cases "i < 0")
  case True
  then show ?thesis using read_nat_digits[OF assms, of "nat (- i)"]
    by (simp add: py_str_int_def read_int_def)
next
  case False
  obtain d ds where dd: "map digit_char (dec_digits (nat i)) = d # ds"
    by (cases "map digit_char (dec_digits (nat i))") auto
  then have "is_digit d" using is_digit_dec_digits[of d "nat i"] by simp
  then have "d \<noteq> CHR ''-''" by auto
  with False read_nat_digits[OF assms, of "nat i"] dd show ?thesis
    by (simp add: py_str_int_def read_int_def)
qed

lemma cut_prefix_append [simp]: "cut_prefix p (p @ s) = Some s"
  by (induction p) simp_all

lemma cut_prefix_length: "cut_prefix p r = Some t \<Longrightarrow> length t \<le> length r"
  by (induction p r rule: cut_prefix.induct) (auto split: if_splits)

lemma read_nat_length: "read_nat s = Some (k, r) \<Longrightarrow> length r < length s"
proof -
  assume a: "read_nat s = Some (k, r)"
  then have "takeWhile is_digit s \<noteq> []" "r = dropWhile is_digit s"
    by (auto simp: read_nat_def Let_def split: if_splits)
  moreover have "length (takeWhile is_digit s) + length (dropWhile is_digit s) = length s"
    by (metis length_append takeWhile_dropWhile_id)
  ultimately show ?thesis by (cases "takeWhile is_digit s") auto
qed

lemma read_int_length: "read_int s = Some (i, r) \<Longrightarrow> length r < length s"
  by (fastforce simp: read_int_def split: list.splits if_splits dest: read_nat_length)

termination read_items
  by (relation "measure length")
     (auto dest!: read_int_length cut_prefix_length)

declare read_items.simps [simp del]

lemma py_join_Cons2: "py_join sep (x # y # ys) = x @ sep @ py_join sep (y # ys)"
  by (simp add: py_join_def)

lemma py_join_single [simp]: "py_join sep [x] = x"
  by (simp add: py_join_def)

lemma not_is_digit_syms [simp]:
  "\<not> is_digit CHR '']''" "\<not> is_digit CHR '',''" "\<not> is_digit CHR '' ''"
  by (simp_all add: is_digit_def)

lemma read_items_py_join:
  "xs \<noteq> [] \<Longrightarrow> read_items (py_join '', '' (map py_str_int xs) @ '']'') = Some xs"
proof (induction xs)
  case Nil
  then show ?case by simp
next
  case (Cons x xs)
  show ?case
  proof (cases xs)
    case Nil
    then show ?thesis by (subst read_items.simps) (simp add: read_int_py_str_int)
  next
    case (Cons y ys)
    then have "read_int (py_join '', '' (map py_str_int (x # xs)) @ '']'') =
                 Some (x, '', '' @ py_join '', '' (map py_str_int xs) @ '']'')"
      by (simp add: py_join_Cons2 read_int_py_str_int)
    with Cons.IH Cons show ?thesis by (subst read_items.simps) simp
  qed
qed

lemma py_str_int_ne [simp]: "py_str_int i \<noteq> []"
  by (simp add: py_str_int_def)

lemma py_join_ne: "xs \<noteq> [] \<Longrightarrow> py_join sep (map py_str_int xs) \<noteq> []"
  by (cases xs) (simp_all add: py_join_def)

lemma parse_list_py_repr_list: "parse_list (py_repr_list xs) = Some xs"
proof (cases "xs = []")
  case True
  then show ?thesis by (simp add: parse_list_def py_repr_list_def py_join_def)
next
  case False
  then show ?thesis using py_join_ne[OF False, of "'', ''"]
    by (simp add: parse_list_def py_repr_list_def read_items_py_join)
qed

lemma read_row_show_row: "read_row (show_row i xs) = Some (i, xs)"
proof -
  have "read_int (py_str_int i @ '' -> '' @ py_repr_list xs) = Some (i, '' -> '' @ py_repr_list xs)"
    by (simp add: read_int_py_str_int)
  then show ?thesis by (simp add: read_row_def show_row_def parse_list_py_repr_list)
qed

lemma read_lines_line:
  "nl \<notin> set l \<Longrightarrow> read_lines acc (l @ nl # s) = map_option (Cons (rev acc @ l)) (read_lines [] s)"
  by (induction l arbitrary: acc) auto

lemma read_lines_lines:
  "\<forall>l \<in> set ls. nl \<notin> set l \<Longrightarrow> read_lines [] (concat (map (\<lambda>l. l @ [nl]) ls)) = Some ls"
  by (induction ls) (simp_all add: read_lines_line)

lemma set_py_join: "set (py_join sep xs) \<subseteq> set sep \<union> \<Union> (set ` set xs)"
  by (cases xs) (auto simp: py_join_def)

lemma nl_py_str_int [simp]: "nl \<notin> set (py_str_int i)"
proof -
  have "nl \<notin> set (map digit_char (dec_digits k))" for k
    using is_digit_dec_digits[of nl k] by (auto simp: is_digit_def nl_def)
  then show ?thesis by (simp add: py_str_int_def nl_def)
qed

lemma nl_py_repr_list [simp]: "nl \<notin> set (py_repr_list xs)"
  using set_py_join[of "'', ''" "map py_str_int xs"] nl_py_str_int
  by (fastforce simp: py_repr_list_def nl_def)

lemma nl_show_row [simp]: "nl \<notin> set (show_row i xs)"
  using nl_py_str_int[of i] nl_py_repr_list[of xs] by (auto simp: show_row_def nl_def)

lemma py_print_single: "py_print [l] = l @ [nl]"
  by (simp add: py_print_def)

lemma show_rows_in_range:
  "\<forall>i \<in> set is. 0 \<le> i \<and> i < int (length a) \<Longrightarrow>
   show_rows a is = (concat (map (\<lambda>i. py_print [show_row i (a ! nat i)]) is), None)"
  by (induction "is") auto

lemma read_rows_upto:
  "read_rows k (map (\<lambda>i. show_row i (f i)) [k..m]) = Some (map f [k..m])"
proof (induction k m rule: upto.induct)
  case (1 k m)
  then show ?case by (subst (1 2) upto.simps) (simp add: read_row_show_row)
qed

lemma map_nth_upto: "m \<le> length xs \<Longrightarrow> map (\<lambda>i. xs ! nat i) [0..int m - 1] = take m xs"
  by (rule nth_equalityI) (simp_all add: nth_upto)

lemma read_tipo_header: "read_tipo (show_header d) = Some d"
  by (simp add: read_tipo_def show_header_def tipo_def)

lemma nl_header [simp]: "nl \<notin> set (show_header d)"
  by (simp add: show_header_def tipo_def nl_def)

lemma graph_show_text:
  assumes "nat (n g) \<le> length (adj g)"
  shows "graph_show g =
           (concat (map (\<lambda>l. l @ [nl]) ((show_header (directed g)) #
              map (\<lambda>i. show_row i (adj g ! nat i)) (py_range (n g)) @ [[]])), None)"
proof -
  have "\<forall>i \<in> set (py_range (n g)). 0 \<le> i \<and> i < int (length (adj g))"
    using assms by auto
  then show ?thesis
    by (simp add: graph_show_def show_rows_in_range py_print_single comp_def)
       (simp add: py_print_def py_join_def)
qed

subsection \<open>Round trips\<close>

text \<open>
  C22: \<open>Graph.show\<close> prints the directedness and, row by row, the first \<open>n\<close>
  adjacency lists in full: when \<open>adj\<close> has at least \<open>n\<close> entries (every graph
  built by \<open>Graph.__init__\<close> and \<open>add_edge\<close>) it raises nothing, and reading the
  printed text back gives exactly \<open>directed\<close> and those lists, neighbour order and
  repetitions included.
\<close>

theorem graph_show_roundtrip:
  assumes "nat (n g) \<le> length (adj g)"
  shows "snd (graph_show g) = None \<and>
         read_show (fst (graph_show g)) = Some (directed g, take (nat (n g)) (adj g))"
proof -
  let ?rows = "map (\<lambda>i. show_row i (adj g ! nat i)) (py_range (n g))"
  have lines: "read_lines [] (fst (graph_show g)) =
                 Some ((show_header (directed g)) # ?rows @ [[]])"
    unfolding graph_show_text[OF assms] fst_conv by (rule read_lines_lines) auto
  have rows: "read_rows 0 ?rows = Some (take (nat (n g)) (adj g))"
  proof (cases "0 \<le> n g")
    case True
    then have "read_rows 0 ?rows = Some (map (\<lambda>i. adj g ! nat i) [0..int (nat (n g)) - 1])"
      using read_rows_upto[of 0 "\<lambda>i. adj g ! nat i" "n g - 1"] by (simp add: py_range_def)
    with True map_nth_upto[OF assms] show ?thesis by simp
  next
    case False
    then show ?thesis by (simp add: py_range_def)
  qed
  show ?thesis
    using lines rows by (simp add: graph_show_text[OF assms] read_show_def read_tipo_header)
qed

lemma graph_show_roundtrip_witness:
  "nat (n \<lparr>n = 3, directed = False, adj = [[1, 1], [0, 0, 2], [1]]\<rparr>) \<le>
     length (adj \<lparr>n = 3, directed = False, adj = [[1, 1], [0, 0, 2], [1]]\<rparr>) \<and>
   snd (graph_show \<lparr>n = 3, directed = False, adj = [[1, 1], [0, 0, 2], [1]]\<rparr>) = None \<and>
   read_show (fst (graph_show \<lparr>n = 3, directed = False, adj = [[1, 1], [0, 0, 2], [1]]\<rparr>)) =
     Some (False, [[1, 1], [0, 0, 2], [1]])"
  using graph_show_roundtrip[of "\<lparr>n = 3, directed = False, adj = [[1, 1], [0, 0, 2], [1]]\<rparr>"]
  by simp

end
