(* ===== verification/Search.thy ===== *)
theory Search
  imports Graph
begin

text \<open>
  The backtracking search \<open>hamiltonian_path\<close> of \<open>src/main.py\<close> (lines 22--46).
  Its local function \<open>backtrack(v, visited, path)\<close> and the \<open>for neighbor in
  graph.adj[v]\<close> loop inside it are the mutually recursive \<open>backtrack\<close> and
  \<open>explore\<close>; the mutable \<open>visited\<close> set and \<open>path\<close> list are the record
  \<open>search_state\<close>, passed in and returned, so that each call returns the state as it
  leaves it. \<open>search_starts\<close> is the outer \<open>for start in range(n)\<close> loop.
  Every step that can raise in Python (\<open>graph.adj[v]\<close>, \<open>visited.remove\<close>,
  \<open>path.pop\<close>) returns a \<open>py_error\<close> on its failing branch.

  The restoring step of \<open>explore\<close> works on the state that the recursive call
  returned, so the recursion is nested. The definition is therefore a
  \<^theory_text>\<open>function\<close> whose termination rests on a fact about the function itself:
  \<open>backtrack_explore_restore_dom\<close>, proved by partial induction, says that a failed
  call returns its input state unchanged. With it the measure \<open>search_measure\<close>
  (unvisited vertices, then a call-kind tag, then the neighbours left) decreases.

  The reference \<open>extensions g k p\<close> enumerates, in the order the search explores
  them, all extensions of the partial path \<open>p\<close> by \<open>k\<close> fresh vertices along
  edges; \<open>ham_spec\<close> is the first of them over all start vertices. The lemmas show
  that the search computes exactly \<open>ham_spec\<close> (refinement), that every member of
  the enumeration is a Hamiltonian path and every Hamiltonian path is a member
  (soundness and completeness), and what the search does outside well-formed graphs.
\<close>

record search_state =
  visited :: "int set"
  path :: "int list"

function (domintros) backtrack ::
  "graph \<Rightarrow> int \<Rightarrow> search_state \<Rightarrow> py_error + (int list option \<times> search_state)"
and explore ::
  "graph \<Rightarrow> int list \<Rightarrow> search_state \<Rightarrow> py_error + (int list option \<times> search_state)"
where
  "backtrack g v st =
     (if int (length (path st)) = n g then Inr (Some (path st), st)
      else (case py_get (adj g) v of
              Inl e \<Rightarrow> Inl e
            | Inr ws \<Rightarrow> explore g ws st))"
| "explore g [] st = Inr (None, st)"
| "explore g (w # ws) st =
     (if w \<in> visited st then explore g ws st
      else (case backtrack g w (st\<lparr>visited := insert w (visited st), path := path st @ [w]\<rparr>) of
              Inl e \<Rightarrow> Inl e
            | Inr (r, st') \<Rightarrow>
                if py_truthy r then Inr (r, st')
                else (case py_set_remove w (visited st') of
                        Inl e \<Rightarrow> Inl e
                      | Inr vis \<Rightarrow>
                          (case py_pop (path st') of
                             Inl e \<Rightarrow> Inl e
                           | Inr p \<Rightarrow> explore g ws (st'\<lparr>visited := vis, path := p\<rparr>)))))"
  by pat_completeness auto

fun search_starts :: "graph \<Rightarrow> int list \<Rightarrow> py_error + int list option" where
  "search_starts g [] = Inr None"
| "search_starts g (s # ss) =
     (case backtrack g s \<lparr>visited = {s}, path = [s]\<rparr> of
        Inl e \<Rightarrow> Inl e
      | Inr (r, _) \<Rightarrow> if py_truthy r then Inr r else search_starts g ss)"

definition hamiltonian_path :: "graph \<Rightarrow> py_error + int list option" where
  "hamiltonian_path g = search_starts g (py_range (n g))"

definition adj_vertices :: "graph \<Rightarrow> int set" where
  "adj_vertices g = set (concat (adj g))"

fun search_measure ::
  "graph \<times> int \<times> search_state + graph \<times> int list \<times> search_state \<Rightarrow> nat list" where
  "search_measure (Inl (g, v, st)) = [card (adj_vertices g - visited st), 1, 0]"
| "search_measure (Inr (g, ws, st)) =
     [card ((adj_vertices g \<union> set ws) - visited st), 0, length ws]"

subsection \<open>Reference enumeration and the Hamiltonian-path predicate\<close>

definition state_of :: "int list \<Rightarrow> search_state" where
  "state_of p = \<lparr>visited = set p, path = p\<rparr>"

definition outcome :: "int list \<Rightarrow> int list option \<Rightarrow> int list option \<times> search_state" where
  "outcome p r = (r, case r of None \<Rightarrow> state_of p | Some q \<Rightarrow> state_of q)"

fun extensions :: "graph \<Rightarrow> nat \<Rightarrow> int list \<Rightarrow> int list list" where
  "extensions g 0 p = [p]"
| "extensions g (Suc k) p =
     concat (map (\<lambda>w. extensions g k (p @ [w])) (filter (\<lambda>w. w \<notin> set p) (nbrs g (last p))))"

definition ham_spec :: "graph \<Rightarrow> int list option" where
  "ham_spec g = first_opt (concat (map (\<lambda>s. extensions g (nat (n g) - 1) [s]) (py_range (n g))))"

definition partial_path :: "graph \<Rightarrow> int list \<Rightarrow> bool" where
  "partial_path g p \<longleftrightarrow>
     p \<noteq> [] \<and> distinct p \<and> list_all (is_vertex g) p \<and> int (length p) \<le> n g"

definition is_ham_path :: "graph \<Rightarrow> int list \<Rightarrow> bool" where
  "is_ham_path g q \<longleftrightarrow>
     int (length q) = n g \<and> distinct q \<and> list_all (is_vertex g) q \<and> successively (is_edge g) q"

definition dup_nbrs :: "graph \<Rightarrow> graph \<Rightarrow> bool" where
  "dup_nbrs g' g \<longleftrightarrow>
     (\<forall>q. q \<noteq> [] \<longrightarrow> is_vertex g (last q) \<longrightarrow>
        (\<exists>ys. filter (\<lambda>w. w \<notin> set q) (nbrs g' (last q)) = filter (\<lambda>w. w \<notin> set q) (nbrs g (last q)) @ ys
              \<and> set ys \<subseteq> set (filter (\<lambda>w. w \<notin> set q) (nbrs g (last q)))))"

declare hamiltonian_path_def [py_eval] state_of_def [py_eval] ham_spec_def [py_eval]
  is_ham_path_def [py_eval]

subsection \<open>A failed call restores the state; termination\<close>

lemma backtrack_explore_restore_dom:
  "backtrack_explore_dom (Inl (g, v, st)) \<Longrightarrow> backtrack g v st = Inr (r, st') \<Longrightarrow>
     \<not> py_truthy r \<Longrightarrow> st' = st"
  "backtrack_explore_dom (Inr (g, ws, st)) \<Longrightarrow> explore g ws st = Inr (r, st') \<Longrightarrow>
     \<not> py_truthy r \<Longrightarrow> st' = st"
proof (induction g v st and g ws st arbitrary: r st' and r st' rule: backtrack_explore.pinduct)
  case (1 g v st)
  then show ?case
    by (auto simp: backtrack.psimps split: if_splits sum.splits)
next
  case (2 g st)
  then show ?case by (simp add: explore.psimps)
next
  case (3 g w ws st)
  show ?case
  proof (cases "w \<in> visited st")
    case True
    with 3 show ?thesis by (simp add: explore.psimps(2)[OF 3(1)])
  next
    case False
    let ?st1 = "st\<lparr>visited := insert w (visited st), path := path st @ [w]\<rparr>"
    from 3(1) 3(5) False obtain r1 st1' where b: "backtrack g w ?st1 = Inr (r1, st1')"
      by (auto simp: explore.psimps split: sum.splits)
    show ?thesis
    proof (cases "py_truthy r1")
      case True
      with 3(1) 3(5,6) False b show ?thesis by (simp add: explore.psimps)
    next
      case fr: False
      from 3(3)[OF False b fr] have st1: "st1' = ?st1" .
      have rm: "py_set_remove w (visited st1') = Inr (visited st)"
        using st1 False by simp
      have pp: "py_pop (path st1') = Inr (path st)"
        using st1 by simp
      have eq: "st1'\<lparr>visited := visited st, path := path st\<rparr> = st"
        using st1 by simp
      from 3(1) 3(5) False b fr rm pp eq have "explore g ws st = Inr (r, st')"
        by (simp add: explore.psimps)
      from 3(4)[OF False b refl fr rm pp] 3(6) this eq show ?thesis by simp
    qed
  qed
qed

lemma finite_adj_vertices [simp]: "finite (adj_vertices g)"
  by (simp add: adj_vertices_def)

lemma card_unvisited_le:
  "card ((adj_vertices g \<union> set ws) - V) \<le> card (insert w (adj_vertices g \<union> set ws) - V)"
  by (rule card_mono) auto

lemma card_unvisited_insert:
  "w \<notin> V \<Longrightarrow> card (adj_vertices g - insert w V) < card (insert w (adj_vertices g \<union> set ws) - V)"
  by (rule psubset_card_mono) auto

lemma py_get_adj_vertices:
  "py_get (adj g) v = Inr ws \<Longrightarrow> adj_vertices g \<union> set ws = adj_vertices g"
  by (auto simp: adj_vertices_def dest: py_get_set)

termination backtrack
proof (relation "measures [\<lambda>x. search_measure x ! 0,
         \<lambda>x. search_measure x ! 1, \<lambda>x. search_measure x ! 2]", goal_cases)
  case (5 g w ws st b x y ba bb)
  then have "y = st\<lparr>visited := insert w (visited st), path := path st @ [w]\<rparr>"
    using backtrack_explore_restore_dom(1) by blast
  with 5 have "ba = visited st" by (auto simp: py_set_remove_def)
  then show ?case using card_unvisited_le[of g ws "visited st" w] by auto
qed (auto simp: py_get_adj_vertices card_unvisited_insert card_unvisited_le le_less)

lemma backtrack_explore_dom_all:
  "backtrack_explore_dom (Inl (g, v, st))" "backtrack_explore_dom (Inr (g, ws, st))"
  by (induction g v st and g ws st rule: backtrack_explore.induct)
     (auto intro: backtrack_explore.domintros)

subsection \<open>The search computes the reference enumeration\<close>

declare backtrack.simps [simp del] backtrack.simps [py_eval]

lemma state_of_snoc:
  "(state_of p)\<lparr>visited := insert w (visited (state_of p)), path := path (state_of p) @ [w]\<rparr>
     = state_of (p @ [w])"
  by (simp add: state_of_def)

lemma state_of_restore: "(state_of q)\<lparr>visited := set p, path := p\<rparr> = state_of p"
  by (simp add: state_of_def)

lemma state_of_sel [simp]: "visited (state_of p) = set p" "path (state_of p) = p"
  by (simp_all add: state_of_def)

lemma extensions_prefix:
  "q \<in> set (extensions g k p) \<Longrightarrow> \<exists>r. q = p @ r \<and> length r = k"
proof (induction k arbitrary: p)
  case 0
  then show ?case by simp
next
  case (Suc k)
  then obtain w where "q \<in> set (extensions g k (p @ [w]))" by auto
  with Suc.IH obtain r where "q = p @ [w] @ r" "length r = k" by fastforce
  then show ?case by (intro exI[of _ "w # r"]) simp
qed

lemma partial_path_snoc:
  "partial_path g p \<Longrightarrow> w \<notin> set p \<Longrightarrow> is_vertex g w \<Longrightarrow> int (length p) < n g \<Longrightarrow>
   partial_path g (p @ [w])"
  by (auto simp: partial_path_def)

lemma partial_path_last:
  "partial_path g p \<Longrightarrow> is_vertex g (last p)"
  by (auto simp: partial_path_def list_all_iff)

lemma search_refines:
  "wf_graph g \<Longrightarrow> partial_path g p \<Longrightarrow> st = state_of p \<Longrightarrow> v = last p \<Longrightarrow>
     backtrack g v st = Inr (outcome p (first_opt (extensions g (nat (n g) - length p) p)))"
  "wf_graph g \<Longrightarrow> partial_path g p \<Longrightarrow> st = state_of p \<Longrightarrow> int (length p) < n g \<Longrightarrow>
     list_all (is_vertex g) ws \<Longrightarrow>
     explore g ws st = Inr (outcome p (first_opt (concat (map (\<lambda>w. extensions g (nat (n g) - Suc (length p)) (p @ [w]))
                                                        (filter (\<lambda>w. w \<notin> set p) ws)))))"
proof (induction g v st and g ws st arbitrary: p and p rule: backtrack_explore.induct)
  case (1 g v st)
  show ?case
  proof (cases "int (length p) = n g")
    case True
    then have "nat (n g) - length p = 0" by simp
    with True 1(4,5) show ?thesis by (simp add: outcome_def backtrack.simps)
  next
    case False
    with 1(3) have lt: "int (length p) < n g" by (simp add: partial_path_def)
    from 1(3,5) have v: "is_vertex g v" by (simp add: partial_path_last)
    with 1(2) have get: "py_get (adj g) v = Inr (nbrs g v)" by (rule wf_graph_py_get)
    have k: "nat (n g) - length p = Suc (nat (n g) - Suc (length p))" using lt by simp
    have ws: "list_all (is_vertex g) (nbrs g v)"
      using 1(2) v wf_graph_nbrs by (auto simp: list_all_iff)
    from 1(1)[of "nbrs g v" p] False get 1(2,3,4) lt ws
    have "explore g (nbrs g v) st = Inr (outcome p (first_opt (concat (map (\<lambda>w. extensions g (nat (n g) - Suc (length p)) (p @ [w]))
                                                        (filter (\<lambda>w. w \<notin> set p) (nbrs g v))))))"
      by simp
    with False get k 1(4,5) show ?thesis by (simp add: backtrack.simps)
  qed
next
  case (2 g st)
  then show ?case by (simp add: outcome_def)
next
  case (3 g w ws st)
  let ?E = "\<lambda>q. extensions g (nat (n g) - length q) q"
  let ?R = "concat (map (\<lambda>w. extensions g (nat (n g) - Suc (length p)) (p @ [w])) (filter (\<lambda>w. w \<notin> set p) ws))"
  show ?case
  proof (cases "w \<in> set p")
    case True
    with 3(1)[of p] 3(4-8) show ?thesis by simp
  next
    case False
    let ?p' = "p @ [w]"
    from 3(5,7,8) False have pp': "partial_path g ?p'" by (simp add: partial_path_snoc)
    have nv: "w \<notin> visited st" using False 3(6) by simp
    have st1: "st\<lparr>visited := insert w (visited st), path := path st @ [w]\<rparr> = state_of ?p'"
      using 3(6) by (simp add: state_of_def)
    have b: "backtrack g w (st\<lparr>visited := insert w (visited st), path := path st @ [w]\<rparr>) =
               Inr (outcome ?p' (first_opt (?E ?p')))"
      by (rule 3(2)[OF nv 3(4) pp' st1]) simp
    show ?thesis
    proof (cases "first_opt (?E ?p')")
      case (Some q)
      then have "q \<in> set (?E ?p')" by (rule first_opt_Some_set)
      then obtain r where "q = ?p' @ r" by (blast dest: extensions_prefix)
      then have "py_truthy (Some q)" by simp
      with Some b False 3(6) show ?thesis by (simp add: outcome_def first_opt_append)
    next
      case None
      have b0: "backtrack g w (st\<lparr>visited := insert w (visited st), path := path st @ [w]\<rparr>) =
                  Inr (None, state_of ?p')"
        using b None by (simp add: outcome_def)
      have rm: "py_set_remove w (visited (state_of ?p')) = Inr (set p)" using False by simp
      have pop: "py_pop (path (state_of ?p')) = Inr p" by simp
      have "explore g ws ((state_of ?p')\<lparr>visited := set p, path := p\<rparr>) = Inr (outcome p (first_opt ?R))"
        by (rule 3(3)[OF nv b0 refl _ rm pop]) (use 3(4,5,7,8) in \<open>simp_all add: state_of_restore\<close>)
      then have rest: "explore g ws (state_of p) = Inr (outcome p (first_opt ?R))"
        by (simp add: state_of_restore)
      with None b False 3(6) show ?thesis
        by (simp add: outcome_def state_of_restore)
    qed
  qed
qed

lemma search_starts_refines:
  "wf_graph g \<Longrightarrow> list_all (is_vertex g) ss \<Longrightarrow>
   search_starts g ss = Inr (first_opt (concat (map (\<lambda>s. extensions g (nat (n g) - 1) [s]) ss)))"
proof (induction ss)
  case Nil
  then show ?case by simp
next
  case (Cons s ss)
  have ps: "partial_path g [s]" using Cons.prems by (auto simp: partial_path_def is_vertex_def)
  have st: "\<lparr>visited = {s}, path = [s]\<rparr> = state_of [s]" by (simp add: state_of_def)
  have b: "backtrack g s \<lparr>visited = {s}, path = [s]\<rparr> =
             Inr (outcome [s] (first_opt (extensions g (nat (n g) - 1) [s])))"
    using search_refines(1)[OF Cons.prems(1) ps st] by simp
  show ?case
  proof (cases "first_opt (extensions g (nat (n g) - 1) [s])")
    case None
    with b Cons show ?thesis by (simp add: outcome_def first_opt_append)
  next
    case (Some q)
    then have "q \<in> set (extensions g (nat (n g) - 1) [s])" by (rule first_opt_Some_set)
    then obtain r where "q = [s] @ r" by (blast dest: extensions_prefix)
    with Some b show ?thesis by (simp add: outcome_def first_opt_append)
  qed
qed

lemma list_all_py_range: "list_all (is_vertex g) (py_range (n g))"
  by (simp add: list_all_iff is_vertex_def)

lemma extensions_sound:
  "wf_graph g \<Longrightarrow> q \<in> set (extensions g k p) \<Longrightarrow> p \<noteq> [] \<Longrightarrow> distinct p \<Longrightarrow>
   list_all (is_vertex g) p \<Longrightarrow> successively (is_edge g) p \<Longrightarrow>
   length q = length p + k \<and> distinct q \<and> list_all (is_vertex g) q \<and> successively (is_edge g) q"
proof (induction k arbitrary: p)
  case 0
  then show ?case by simp
next
  case (Suc k)
  from Suc.prems(2) obtain w where w: "w \<in> set (nbrs g (last p))" "w \<notin> set p"
    and q: "q \<in> set (extensions g k (p @ [w]))" by auto
  have lv: "is_vertex g (last p)" using Suc.prems(3,5) by (simp add: list_all_iff)
  have "is_vertex g w" by (rule wf_graph_nbrs[OF Suc.prems(1) lv w(1)])
  moreover have "is_edge g (last p) w" using lv w(1) by (simp add: is_edge_def)
  ultimately have "length q = length (p @ [w]) + k \<and> distinct q \<and> list_all (is_vertex g) q \<and>
                     successively (is_edge g) q"
    using Suc.IH[OF Suc.prems(1) q] Suc.prems(3-6) w(2)
    by (simp add: successively_append_iff)
  then show ?case by simp
qed

lemma extensions_complete:
  "p \<noteq> [] \<Longrightarrow> distinct (p @ r) \<Longrightarrow> successively (is_edge g) (p @ r) \<Longrightarrow>
   p @ r \<in> set (extensions g (length r) p)"
proof (induction r arbitrary: p)
  case Nil
  then show ?case by simp
next
  case (Cons w r)
  have "(p @ [w]) @ r \<in> set (extensions g (length r) (p @ [w]))"
    using Cons.prems by (intro Cons.IH) simp_all
  moreover have "w \<in> set (nbrs g (last p))" "w \<notin> set p"
    using Cons.prems by (auto simp: successively_append_iff is_edge_def)
  ultimately show ?case by auto
qed

lemma ham_spec_sound:
  assumes "wf_graph g" "ham_spec g = Some q"
  shows "is_ham_path g q"
proof -
  from first_opt_Some_set[OF assms(2)[unfolded ham_spec_def]]
  obtain s where s: "s \<in> set (py_range (n g))"
    and q: "q \<in> set (extensions g (nat (n g) - 1) [s])"
    by auto
  from s have "is_vertex g s" by (simp add: is_vertex_def)
  then have "length q = 1 + (nat (n g) - 1) \<and> distinct q \<and> list_all (is_vertex g) q \<and>
               successively (is_edge g) q"
    using extensions_sound[OF assms(1) q] by simp
  with s show ?thesis by (auto simp: is_ham_path_def)
qed

lemma ham_spec_complete:
  assumes "is_ham_path g q" "0 < n g"
  shows "ham_spec g \<noteq> None"
proof -
  from assms obtain s r where q: "q = s # r" "int (length r) = n g - 1"
    and dq: "distinct q" and vs: "is_vertex g s" and sq: "successively (is_edge g) q"
    by (cases q) (auto simp: is_ham_path_def)
  then have "[s] @ r \<in> set (extensions g (length r) [s])"
    by (intro extensions_complete) simp_all
  moreover have "length r = nat (n g) - 1" using q(2) by simp
  moreover have "s \<in> set (py_range (n g))" using vs by (simp add: is_vertex_def)
  ultimately show ?thesis by (auto simp: ham_spec_def intro!: bexI[of _ s])
qed

lemma hamiltonian_path_ham_spec:
  "wf_graph g \<Longrightarrow> hamiltonian_path g = Inr r \<longleftrightarrow> ham_spec g = r"
  using search_starts_refines[OF _ list_all_py_range]
  by (auto simp: hamiltonian_path_def ham_spec_def)

text \<open>
  C1: on a well-formed graph the search never raises and returns exactly the first
  Hamiltonian path of the reference enumeration: start vertices in increasing order,
  neighbours in insertion order.
\<close>

theorem hamiltonian_path_refines:
  "wf_graph g \<Longrightarrow> hamiltonian_path g = Inr (ham_spec g)"
  by (simp add: hamiltonian_path_def ham_spec_def search_starts_refines list_all_py_range)

text \<open>
  C2: a path returned on a well-formed graph is Hamiltonian: \<open>n\<close> distinct
  vertices in range, each consecutive pair an arc of the adjacency lists.
\<close>

theorem hamiltonian_path_sound:
  assumes "wf_graph g" "hamiltonian_path g = Inr (Some q)"
  shows "is_ham_path g q"
  using assms by (simp add: hamiltonian_path_ham_spec ham_spec_sound)

text \<open>
  C3: exhaustiveness: on a well-formed graph with at least one vertex the search
  returns a path exactly when a Hamiltonian path exists.
\<close>

theorem hamiltonian_path_complete:
  assumes "wf_graph g" "0 < n g"
  shows "(\<exists>q. hamiltonian_path g = Inr (Some q)) \<longleftrightarrow> (\<exists>q. is_ham_path g q)"
  using ham_spec_sound[OF assms(1)] ham_spec_complete[OF _ assms(2)]
  by (auto simp: hamiltonian_path_ham_spec[OF assms(1)])

subsection \<open>Neighbour lists that only gain duplicates\<close>

text \<open>
  \<open>dup_nbrs g' g\<close>: at every vertex, the unvisited neighbours of \<open>g'\<close> are those
  of \<open>g\<close> followed by entries already among them. The enumeration then keeps its first
  element and its set, so the search result is unchanged.
\<close>

lemma extensions_dup_nbrs:
  assumes "wf_graph g" "dup_nbrs g' g"
  shows "p \<noteq> [] \<Longrightarrow> list_all (is_vertex g) p \<Longrightarrow>
    first_opt (extensions g' k p) = first_opt (extensions g k p) \<and>
    set (extensions g' k p) = set (extensions g k p)"
proof (induction k arbitrary: p)
  case 0
  then show ?case by simp
next
  case (Suc k)
  let ?F = "filter (\<lambda>w. w \<notin> set p) (nbrs g (last p))"
  have lv: "is_vertex g (last p)" using Suc.prems by (simp add: list_all_iff)
  then obtain ys where ys: "filter (\<lambda>w. w \<notin> set p) (nbrs g' (last p)) = ?F @ ys" "set ys \<subseteq> set ?F"
    using assms(2) Suc.prems(1) unfolding dup_nbrs_def by blast
  have ih: "first_opt (extensions g' k (p @ [w])) = first_opt (extensions g k (p @ [w])) \<and>
            set (extensions g' k (p @ [w])) = set (extensions g k (p @ [w]))" if "w \<in> set ?F" for w
  proof -
    have "is_vertex g w" using that wf_graph_nbrs[OF assms(1) lv] by simp
    then show ?thesis using Suc.prems by (intro Suc.IH) simp_all
  qed
  have a: "first_opt (concat (map (\<lambda>w. extensions g' k (p @ [w])) (?F @ ys))) =
             first_opt (concat (map (\<lambda>w. extensions g' k (p @ [w])) ?F)) \<and>
           set (concat (map (\<lambda>w. extensions g' k (p @ [w])) (?F @ ys))) =
             set (concat (map (\<lambda>w. extensions g' k (p @ [w])) ?F))"
    by (rule first_opt_concat_dup[OF ys(2)])
  have b: "first_opt (concat (map (\<lambda>w. extensions g' k (p @ [w])) ?F)) =
             first_opt (concat (map (\<lambda>w. extensions g k (p @ [w])) ?F)) \<and>
           set (concat (map (\<lambda>w. extensions g' k (p @ [w])) ?F)) =
             set (concat (map (\<lambda>w. extensions g k (p @ [w])) ?F))"
    by (rule first_opt_concat_cong) (rule ih)
  from a b ys(1) show ?case by simp
qed

lemma ham_spec_dup_nbrs:
  assumes "wf_graph g" "dup_nbrs g' g" "n g' = n g"
  shows "ham_spec g' = ham_spec g"
proof -
  have "first_opt (concat (map (\<lambda>s. extensions g' (nat (n g) - 1) [s]) (py_range (n g)))) =
          first_opt (concat (map (\<lambda>s. extensions g (nat (n g) - 1) [s]) (py_range (n g)))) \<and>
        set (concat (map (\<lambda>s. extensions g' (nat (n g) - 1) [s]) (py_range (n g)))) =
          set (concat (map (\<lambda>s. extensions g (nat (n g) - 1) [s]) (py_range (n g))))"
    by (rule first_opt_concat_cong, rule extensions_dup_nbrs[OF assms(1,2)])
       (auto simp: is_vertex_def)
  then show ?thesis using assms(3) by (simp add: ham_spec_def)
qed

lemma dup_nbrs_self_loop:
  assumes "wf_graph g" "is_vertex g u"
  shows "dup_nbrs (snd (add_edge g u u)) g"
  unfolding dup_nbrs_def
proof (intro allI impI)
  fix q :: "int list"
  assume q: "q \<noteq> []" "is_vertex g (last q)"
  then have "last q \<in> set q" by simp
  then show "\<exists>ys. filter (\<lambda>w. w \<notin> set q) (nbrs (snd (add_edge g u u)) (last q)) =
                 filter (\<lambda>w. w \<notin> set q) (nbrs g (last q)) @ ys \<and>
               set ys \<subseteq> set (filter (\<lambda>w. w \<notin> set q) (nbrs g (last q)))"
    using assms q(2) by (intro exI[of _ "[]"]) (auto simp: nbrs_add_edge)
qed

lemma dup_nbrs_parallel:
  assumes "wf_graph g" "is_vertex g u" "is_vertex g v" "v \<in> set (nbrs g u)"
    and "\<not> directed g \<longrightarrow> u \<in> set (nbrs g v)"
  shows "dup_nbrs (snd (add_edge g u v)) g"
  unfolding dup_nbrs_def
proof (intro allI impI)
  fix q :: "int list"
  assume q: "q \<noteq> []" "is_vertex g (last q)"
  let ?P = "\<lambda>w. w \<notin> set q"
  let ?ys = "filter ?P ((if last q = u then [v] else []) @ (if \<not> directed g \<and> last q = v then [u] else []))"
  have "filter ?P (nbrs (snd (add_edge g u v)) (last q)) = filter ?P (nbrs g (last q)) @ ?ys"
    using assms(1-3) q(2) by (simp add: nbrs_add_edge)
  moreover have "set ?ys \<subseteq> set (filter ?P (nbrs g (last q)))"
    using assms(4,5) by auto
  ultimately show "\<exists>ys. filter ?P (nbrs (snd (add_edge g u v)) (last q)) =
                 filter ?P (nbrs g (last q)) @ ys \<and> set ys \<subseteq> set (filter ?P (nbrs g (last q)))"
    by blast
qed

lemma search_no_key_error:
  "backtrack g v st \<noteq> Inl KeyError" "explore g ws st \<noteq> Inl KeyError"
proof (induction g v st and g ws st rule: backtrack_explore.induct)
  case (1 g v st)
  then show ?case by (auto simp: backtrack.simps py_get_Inl split: sum.splits)
next
  case (2 g st)
  then show ?case by simp
next
  case (3 g w ws st)
  let ?st1 = "st\<lparr>visited := insert w (visited st), path := path st @ [w]\<rparr>"
  show ?case
  proof (cases "w \<in> visited st")
    case True
    with 3(1) show ?thesis by simp
  next
    case False
    show ?thesis
    proof (cases "backtrack g w ?st1")
      case (Inl e)
      with 3(2) False show ?thesis by auto
    next
      case (Inr res)
      obtain r st' where res: "res = (r, st')" by (cases res)
      show ?thesis
      proof (cases "py_truthy r")
        case True
        with False Inr res show ?thesis by simp
      next
        case fr: False
        have "st' = ?st1"
          using backtrack_explore_restore_dom(1)[OF backtrack_explore_dom_all(1)] Inr res fr by blast
        then have rm: "py_set_remove w (visited st') = Inr (visited st)"
          and pp: "py_pop (path st') = Inr (path st)" using False by simp_all
        have "explore g ws (st'\<lparr>visited := visited st, path := path st\<rparr>) \<noteq> Inl KeyError"
          using 3(3)[OF False Inr res[symmetric] fr rm pp] .
        with False Inr res fr rm pp show ?thesis by simp
      qed
    qed
  qed
qed

text \<open>
  C4: strict backtracking: a call of \<open>backtrack\<close> that fails (returns no path or a
  false-valued one) returns the \<open>visited\<close> set and \<open>path\<close> list exactly as it found
  them, on every graph and every state.
\<close>

theorem backtrack_restores:
  assumes "backtrack g v st = Inr (r, st')" "\<not> py_truthy r"
  shows "st' = st"
  using backtrack_explore_restore_dom(1)[OF backtrack_explore_dom_all(1) assms] .

text \<open>
  C5: a successful call from a partial path \<open>p\<close> returns the very list object it
  has built: the result is the final \<open>path\<close>, \<open>visited\<close> holds exactly its vertices,
  it extends \<open>p\<close> and has length \<open>n\<close>.
\<close>

theorem backtrack_success_state:
  assumes "wf_graph g" "partial_path g p"
    and "backtrack g (last p) (state_of p) = Inr (Some q, st')"
  shows "path st' = q \<and> visited st' = set q \<and> (\<exists>r. q = p @ r) \<and> int (length q) = n g"
proof -
  have r: "backtrack g (last p) (state_of p) =
             Inr (outcome p (first_opt (extensions g (nat (n g) - length p) p)))"
    using search_refines(1)[OF assms(1,2) refl refl] .
  with assms(3) have fo: "first_opt (extensions g (nat (n g) - length p) p) = Some q"
    and st': "st' = state_of q"
    by (auto simp: outcome_def split: option.splits)
  from first_opt_Some_set[OF fo] obtain r where "q = p @ r" "length r = nat (n g) - length p"
    by (blast dest: extensions_prefix)
  moreover have "int (length p) \<le> n g" using assms(2) by (simp add: partial_path_def)
  ultimately show ?thesis using st' by auto
qed

text \<open>
  C6: with \<open>n \<le> 0\<close> the start loop \<open>for start in range(n)\<close> never runs and the
  search reports absence, whatever the adjacency holds. For \<open>n = 0\<close> the empty list
  is (vacuously) a Hamiltonian path, so this is where the search and
  \<open>is_ham_path\<close> part, and why C3 asks for a vertex.
\<close>

theorem hamiltonian_path_nonpositive:
  assumes "n g \<le> 0"
  shows "hamiltonian_path g = Inr None \<and> is_ham_path g [] = (n g = 0)"
  using assms by (simp add: hamiltonian_path_def py_range_def is_ham_path_def)

text \<open>
  C21: \<open>visited.remove(neighbor)\<close> never raises: on every graph, well formed or
  not, the search never ends in a KeyError, because a failed recursive call hands
  back exactly the state it was given, so the neighbour it added is still in
  \<open>visited\<close>. (That \<open>path.pop()\<close> never raises either is part of C30: its
  IndexError cannot be told from that of \<open>graph.adj[v]\<close> by its value.)
\<close>

theorem hamiltonian_path_no_key_error: "hamiltonian_path g \<noteq> Inl KeyError"
proof -
  have "search_starts g ss \<noteq> Inl KeyError" for ss
    by (induction ss) (use search_no_key_error(1) in \<open>auto split: sum.splits\<close>)
  then show ?thesis by (simp add: hamiltonian_path_def)
qed

end
