(* ===== verification/View.thy ===== *)
theory View
  imports Search
begin

text \<open>
  \<open>visualizar_grafo\<close> of \<open>src/view.py\<close> as data. The drawing library is not
  modelled pixel by pixel: the model keeps what the function hands to it. The
  \<open>networkx\<close> graph \<open>G\<close> is the record \<open>nx_graph\<close> (its directedness, its nodes in
  insertion order, its edges in the order they were first added; an undirected
  graph stores each unordered pair once), with \<open>nx_add_edge\<close> as
  \<open>G.add_edge(u, v)\<close>: both endpoints become nodes, an existing edge is not
  duplicated. \<open>nx.spring_layout\<close> gives a position to every node of \<open>G\<close> and to
  nothing else (\<open>has_pos\<close>); the positions themselves are not modelled. The
  \<open>figure\<close> holds the drawn graph, the highlighted edges and nodes and the title.

  The drawing calls fail as \<open>networkx\<close> 3 does: \<open>draw_networkx_edges\<close> looks up the
  position of both ends of each listed edge (a \<open>KeyError\<close> when one is missing),
  \<open>draw_networkx_nodes\<close> raises \<open>NetworkXError\<close> for a listed node without a
  position. \<open>plt.show()\<close> is output only.
\<close>

datatype view_error = PyError py_error | NetworkXError

record nx_graph =
  nx_directed :: bool
  nx_nodes :: "int list"
  nx_edges :: "(int \<times> int) list"

definition nx_new :: "bool \<Rightarrow> nx_graph" where
  "nx_new d = \<lparr>nx_directed = d, nx_nodes = [], nx_edges = []\<rparr>"

definition nx_has_edge :: "nx_graph \<Rightarrow> int \<Rightarrow> int \<Rightarrow> bool" where
  "nx_has_edge G u v \<longleftrightarrow>
     (u, v) \<in> set (nx_edges G) \<or> (\<not> nx_directed G \<and> (v, u) \<in> set (nx_edges G))"

definition nx_add_node :: "nx_graph \<Rightarrow> int \<Rightarrow> nx_graph" where
  "nx_add_node G u = (if u \<in> set (nx_nodes G) then G else G\<lparr>nx_nodes := nx_nodes G @ [u]\<rparr>)"

definition nx_add_edge :: "nx_graph \<Rightarrow> int \<Rightarrow> int \<Rightarrow> nx_graph" where
  "nx_add_edge G u v =
     (let G' = nx_add_node (nx_add_node G u) v
      in if nx_has_edge G' u v then G' else G'\<lparr>nx_edges := nx_edges G' @ [(u, v)]\<rparr>)"

fun add_nbr_edges :: "nx_graph \<Rightarrow> int \<Rightarrow> int list \<Rightarrow> nx_graph" where
  "add_nbr_edges G u [] = G"
| "add_nbr_edges G u (v # vs) = add_nbr_edges (nx_add_edge G u v) u vs"

fun build_nx :: "graph \<Rightarrow> nx_graph \<Rightarrow> int list \<Rightarrow> py_error + nx_graph" where
  "build_nx g G [] = Inr G"
| "build_nx g G (u # us) =
     (case py_get (adj g) u of
        Inl e \<Rightarrow> Inl e
      | Inr vs \<Rightarrow> build_nx g (add_nbr_edges G u vs) us)"

definition path_edges :: "int list \<Rightarrow> (int \<times> int) list" where
  "path_edges c = map (\<lambda>i. (c ! i, c ! (i + 1))) [0..<length c - 1]"

definition has_pos :: "nx_graph \<Rightarrow> int \<Rightarrow> bool" where
  "has_pos G v \<longleftrightarrow> v \<in> set (nx_nodes G)"

record figure =
  fig_graph :: nx_graph
  fig_path_edges :: "(int \<times> int) list"
  fig_path_nodes :: "int list"
  fig_title :: string

definition visualizar_grafo :: "graph \<Rightarrow> int list option \<Rightarrow> view_error + figure" where
  "visualizar_grafo g caminho =
     (case build_nx g (nx_new (directed g)) (py_range (n g)) of
        Inl e \<Rightarrow> Inl (PyError e)
      | Inr G \<Rightarrow>
          (if py_truthy caminho then
             (let c = the caminho; es = path_edges c in
              if \<not> list_all (\<lambda>(a, b). has_pos G a \<and> has_pos G b) es then Inl (PyError KeyError)
              else if \<not> list_all (has_pos G) c then Inl NetworkXError
              else Inr \<lparr>fig_graph = G, fig_path_edges = es, fig_path_nodes = c,
                        fig_title = ''Caminho Hamiltoniano''\<rparr>)
           else Inr \<lparr>fig_graph = G, fig_path_edges = [], fig_path_nodes = [],
                     fig_title = ''Nenhum Caminho Hamiltoniano encontrado''\<rparr>))"

declare nx_new_def [py_eval] nx_has_edge_def [py_eval] nx_add_node_def [py_eval]
  nx_add_edge_def [py_eval] path_edges_def [py_eval] has_pos_def [py_eval]
  visualizar_grafo_def [py_eval]

subsection \<open>The drawn graph\<close>

lemma nx_add_edge_sel:
  "nx_directed (nx_add_edge G u v) = nx_directed G"
  "set (nx_nodes (nx_add_edge G u v)) = set (nx_nodes G) \<union> {u, v}"
  "nx_has_edge (nx_add_edge G u v) a b \<longleftrightarrow>
     nx_has_edge G a b \<or> (a = u \<and> b = v) \<or> (\<not> nx_directed G \<and> a = v \<and> b = u)"
  by (auto simp: nx_add_edge_def nx_add_node_def nx_has_edge_def Let_def)

lemma add_nbr_edges_sel:
  "nx_directed (add_nbr_edges G u vs) = nx_directed G"
  "set (nx_nodes (add_nbr_edges G u vs)) =
     set (nx_nodes G) \<union> (if vs = [] then {} else insert u (set vs))"
  "nx_has_edge (add_nbr_edges G u vs) a b \<longleftrightarrow>
     nx_has_edge G a b \<or> (a = u \<and> b \<in> set vs) \<or> (\<not> nx_directed G \<and> b = u \<and> a \<in> set vs)"
  by (induction G u vs rule: add_nbr_edges.induct) (auto simp: nx_add_edge_sel)

lemma build_nx_in_range:
  assumes "list_all (\<lambda>u. 0 \<le> u \<and> u < int (length (adj g))) us"
  shows "\<exists>G'. build_nx g G us = Inr G' \<and> nx_directed G' = nx_directed G \<and>
    set (nx_nodes G') = set (nx_nodes G) \<union>
      (\<Union>u \<in> set us. if adj g ! nat u = [] then {} else insert u (set (adj g ! nat u))) \<and>
    (\<forall>a b. nx_has_edge G' a b \<longleftrightarrow> nx_has_edge G a b \<or>
       (\<exists>u \<in> set us. (a = u \<and> b \<in> set (adj g ! nat u)) \<or>
                      (\<not> nx_directed G \<and> b = u \<and> a \<in> set (adj g ! nat u))))"
  using assms
proof (induction us arbitrary: G)
  case Nil
  then show ?case by simp
next
  case (Cons u us)
  then obtain G' where "build_nx g (add_nbr_edges G u (adj g ! nat u)) us = Inr G'"
    and "nx_directed G' = nx_directed G"
    and "set (nx_nodes G') = set (nx_nodes (add_nbr_edges G u (adj g ! nat u))) \<union>
      (\<Union>u \<in> set us. if adj g ! nat u = [] then {} else insert u (set (adj g ! nat u)))"
    and "\<forall>a b. nx_has_edge G' a b \<longleftrightarrow> nx_has_edge (add_nbr_edges G u (adj g ! nat u)) a b \<or>
       (\<exists>u \<in> set us. (a = u \<and> b \<in> set (adj g ! nat u)) \<or>
                      (\<not> nx_directed G \<and> b = u \<and> a \<in> set (adj g ! nat u)))"
    by (fastforce simp: add_nbr_edges_sel)
  with Cons.prems show ?case by (auto simp: add_nbr_edges_sel)
qed

lemma nodes_char:
  "(\<Union>u \<in> {0..<n g}. if adj g ! nat u = [] then {} else insert u (set (adj g ! nat u))) =
   {v. \<exists>u. is_edge g u v \<or> is_edge g v u}"
proof (intro set_eqI iffI)
  fix v assume "v \<in> (\<Union>u \<in> {0..<n g}. if adj g ! nat u = [] then {} else insert u (set (adj g ! nat u)))"
  then obtain u where u: "u \<in> {0..<n g}" "adj g ! nat u \<noteq> []" "v = u \<or> v \<in> set (adj g ! nat u)"
    by (auto split: if_splits)
  then obtain w where w: "w \<in> set (adj g ! nat u)" by (cases "adj g ! nat u") auto
  show "v \<in> {v. \<exists>u. is_edge g u v \<or> is_edge g v u}"
    using u w by (auto simp: is_edge_def nbrs_def is_vertex_def)
next
  fix v assume "v \<in> {v. \<exists>u. is_edge g u v \<or> is_edge g v u}"
  then obtain u where "is_edge g u v \<or> is_edge g v u" by blast
  then show "v \<in> (\<Union>u \<in> {0..<n g}. if adj g ! nat u = [] then {} else insert u (set (adj g ! nat u)))"
  proof
    assume e: "is_edge g u v"
    then have "adj g ! nat u \<noteq> []" by (auto simp: is_edge_def nbrs_def)
    with e show ?thesis by (intro UN_I[of u]) (auto simp: is_edge_def nbrs_def is_vertex_def)
  next
    assume e: "is_edge g v u"
    then have "adj g ! nat v \<noteq> []" by (auto simp: is_edge_def nbrs_def)
    with e show ?thesis by (intro UN_I[of v]) (auto simp: is_edge_def is_vertex_def)
  qed
qed

lemma nx_new_sel [simp]:
  "nx_directed (nx_new d) = d" "nx_nodes (nx_new d) = []" "nx_has_edge (nx_new d) a b = False"
  by (simp_all add: nx_new_def nx_has_edge_def)

lemma build_nx_graph:
  assumes "nat (n g) \<le> length (adj g)"
  shows "\<exists>G. build_nx g (nx_new (directed g)) (py_range (n g)) = Inr G \<and>
    nx_directed G = directed g \<and>
    set (nx_nodes G) = {v. \<exists>u. is_edge g u v \<or> is_edge g v u} \<and>
    (\<forall>a b. nx_has_edge G a b \<longleftrightarrow> is_edge g a b \<or> (\<not> directed g \<and> is_edge g b a))"
proof -
  have "list_all (\<lambda>u. 0 \<le> u \<and> u < int (length (adj g))) (py_range (n g))"
    using assms by (auto simp: list_all_iff)
  from build_nx_in_range[OF this, of "nx_new (directed g)"] obtain G
    where G: "build_nx g (nx_new (directed g)) (py_range (n g)) = Inr G"
      "nx_directed G = directed g"
      "set (nx_nodes G) =
         (\<Union>u \<in> {0..<n g}. if adj g ! nat u = [] then {} else insert u (set (adj g ! nat u)))"
      "\<forall>a b. nx_has_edge G a b \<longleftrightarrow>
         (\<exists>u \<in> {0..<n g}. (a = u \<and> b \<in> set (adj g ! nat u)) \<or>
                          (\<not> directed g \<and> b = u \<and> a \<in> set (adj g ! nat u)))"
    by (auto simp: nx_new_sel)
  have N: "set (nx_nodes G) = {v. \<exists>u. is_edge g u v \<or> is_edge g v u}"
    by (simp only: G(3) nodes_char)
  have E: "\<forall>a b. nx_has_edge G a b \<longleftrightarrow> is_edge g a b \<or> (\<not> directed g \<and> is_edge g b a)"
    using G(4) by (auto simp: is_edge_def nbrs_def is_vertex_def)
  from G(1,2) N E show ?thesis by blast
qed
lemma path_edges_zip: "path_edges c = zip c (tl c)"
  by (simp add: list_eq_iff_nth_eq path_edges_def nth_tl)

lemma successively_zip: "successively R xs \<Longrightarrow> list_all (\<lambda>(a, b). R a b) (zip xs (tl xs))"
  by (induction xs rule: induct_list012) auto

lemma successively_incident:
  "successively R q \<Longrightarrow> 2 \<le> length q \<Longrightarrow> v \<in> set q \<Longrightarrow> \<exists>u. R v u \<or> R u v"
proof (induction q rule: induct_list012)
  case (3 x y xs)
  then show ?case by (cases xs) auto
qed auto

lemma wf_graph_length: "wf_graph g \<Longrightarrow> nat (n g) \<le> length (adj g)"
  by (simp add: wf_graph_def)

subsection \<open>Drawing the search result\<close>

lemma visualizar_grafo_graph:
  "visualizar_grafo g c = Inr f \<Longrightarrow> build_nx g (nx_new (directed g)) (py_range (n g)) = Inr (fig_graph f)"
  by (auto simp: visualizar_grafo_def Let_def split: sum.splits if_splits)

lemma visualizar_grafo_no_path:
  "build_nx g (nx_new (directed g)) (py_range (n g)) = Inr G \<Longrightarrow> \<not> py_truthy c \<Longrightarrow>
   visualizar_grafo g c = Inr \<lparr>fig_graph = G, fig_path_edges = [], fig_path_nodes = [],
                              fig_title = ''Nenhum Caminho Hamiltoniano encontrado''\<rparr>"
  by (simp add: visualizar_grafo_def)

lemma visualizar_grafo_path:
  "build_nx g (nx_new (directed g)) (py_range (n g)) = Inr G \<Longrightarrow> q \<noteq> [] \<Longrightarrow>
   list_all (\<lambda>(a, b). has_pos G a \<and> has_pos G b) (path_edges q) \<Longrightarrow> list_all (has_pos G) q \<Longrightarrow>
   visualizar_grafo g (Some q) = Inr \<lparr>fig_graph = G, fig_path_edges = path_edges q, fig_path_nodes = q,
                              fig_title = ''Caminho Hamiltoniano''\<rparr>"
  by (simp add: visualizar_grafo_def)

text \<open>
  C23: whenever \<open>visualizar_grafo\<close> draws, the drawn graph has exactly the arcs of
  the adjacency lists (both orientations when undirected) and its nodes are exactly
  the endpoints of arcs: a vertex without arcs is not drawn.
\<close>

theorem visualizar_draws_arcs:
  assumes "nat (n g) \<le> length (adj g)" "visualizar_grafo g c = Inr f"
  shows "nx_directed (fig_graph f) = directed g \<and>
    set (nx_nodes (fig_graph f)) = {v. \<exists>u. is_edge g u v \<or> is_edge g v u} \<and>
    (\<forall>a b. nx_has_edge (fig_graph f) a b \<longleftrightarrow> is_edge g a b \<or> (\<not> directed g \<and> is_edge g b a))"
  using build_nx_graph[OF assms(1)] visualizar_grafo_graph[OF assms(2)] by auto

lemma visualizar_ham_path:
  assumes "wf_graph g" "2 \<le> n g" "is_ham_path g q"
  shows "\<exists>G. visualizar_grafo g (Some q) =
           Inr \<lparr>fig_graph = G, fig_path_edges = path_edges q, fig_path_nodes = q,
                fig_title = ''Caminho Hamiltoniano''\<rparr> \<and>
         list_all (\<lambda>(a, b). nx_has_edge G a b) (path_edges q)"
proof -
  obtain G where G: "build_nx g (nx_new (directed g)) (py_range (n g)) = Inr G"
    and N: "set (nx_nodes G) = {v. \<exists>u. is_edge g u v \<or> is_edge g v u}"
    and E: "\<forall>a b. nx_has_edge G a b \<longleftrightarrow> is_edge g a b \<or> (\<not> directed g \<and> is_edge g b a)"
    using build_nx_graph[OF wf_graph_length[OF assms(1)]] by blast
  have len: "2 \<le> length q" and sq: "successively (is_edge g) q"
    using assms(2,3) by (auto simp: is_ham_path_def)
  have pe: "list_all (\<lambda>(a, b). is_edge g a b) (path_edges q)"
    using successively_zip[OF sq] by (simp add: path_edges_zip)
  have "list_all (\<lambda>(a, b). has_pos G a \<and> has_pos G b) (path_edges q)"
    using pe by (auto simp: list_all_iff has_pos_def N)
  moreover have "list_all (has_pos G) q"
    using successively_incident[OF sq len] by (auto simp: list_all_iff has_pos_def N)
  moreover have "list_all (\<lambda>(a, b). nx_has_edge G a b) (path_edges q)"
    using pe E by (auto simp: list_all_iff)
  moreover have "q \<noteq> []" using len by auto
  ultimately show ?thesis using G by (simp add: visualizar_grafo_path)
qed

text \<open>
  C24: drawing the search's own result: on a well-formed graph with at least two
  vertices, \<open>visualizar_grafo(g, hamiltonian_path(g))\<close> does not raise, every
  highlighted edge is an edge of the drawn graph, the highlighted nodes are the path,
  and the title announces a Hamiltonian path exactly when one exists.
\<close>

theorem visualizar_search_result:
  assumes "wf_graph g" "2 \<le> n g" "hamiltonian_path g = Inr c"
  shows "\<exists>f. visualizar_grafo g c = Inr f \<and>
    fig_path_nodes f = (case c of None \<Rightarrow> [] | Some q \<Rightarrow> q) \<and>
    list_all (\<lambda>(a, b). nx_has_edge (fig_graph f) a b) (fig_path_edges f) \<and>
    (fig_title f = ''Caminho Hamiltoniano'' \<longleftrightarrow> (\<exists>q. is_ham_path g q))"
proof -
  have spec: "ham_spec g = c" using assms(1,3) hamiltonian_path_ham_spec by blast
  show ?thesis
  proof (cases c)
    case None
    obtain G where G: "build_nx g (nx_new (directed g)) (py_range (n g)) = Inr G"
      using build_nx_graph[OF wf_graph_length[OF assms(1)]] by blast
    have "\<not> (\<exists>q. is_ham_path g q)" using ham_spec_complete[of g] spec assms(2) None by auto
    with None show ?thesis by (simp add: visualizar_grafo_no_path[OF G])
  next
    case (Some q)
    then have hp: "is_ham_path g q" using ham_spec_sound[OF assms(1)] spec by blast
    with Some visualizar_ham_path[OF assms(1,2) hp] show ?thesis by auto
  qed
qed

text \<open>
  C25: the one case where drawing the search's result fails: a single vertex without
  a self-loop. The search returns the path \<open>[0]\<close>, but vertex 0 was never added
  to the drawing (nodes enter it only with edges), so highlighting it raises
  \<open>NetworkXError\<close>.
\<close>

theorem visualizar_single_vertex_error:
  assumes "wf_graph g" "n g = 1" "nbrs g 0 = []"
  shows "hamiltonian_path g = Inr (Some [0]) \<and> visualizar_grafo g (Some [0]) = Inl NetworkXError"
proof -
  have "ham_spec g = Some [0]" using assms(2) by (simp add: ham_spec_def py_range_def)
  then have hp: "hamiltonian_path g = Inr (Some [0])" using hamiltonian_path_ham_spec[OF assms(1)] by blast
  obtain G where G: "build_nx g (nx_new (directed g)) (py_range (n g)) = Inr G"
    and N: "set (nx_nodes G) = {v. \<exists>u. is_edge g u v \<or> is_edge g v u}"
    using build_nx_graph[OF wf_graph_length[OF assms(1)]] by blast
  have "\<not> is_edge g u v" for u v
  proof
    assume e: "is_edge g u v"
    then have "u = 0" using assms(2) by (simp add: is_edge_def is_vertex_def)
    with e assms(3) show False by (simp add: is_edge_def)
  qed
  then have "\<not> has_pos G 0" by (simp add: has_pos_def N)
  with G hp show ?thesis by (simp add: visualizar_grafo_def path_edges_def)
qed

lemma visualizar_draws_arcs_witness:
  "nat (n (snd (build_graph 3 True [(0, 1), (2, 5)]))) \<le> length (adj (snd (build_graph 3 True [(0, 1), (2, 5)]))) \<and>
   visualizar_grafo (snd (build_graph 3 True [(0, 1), (2, 5)])) None =
     Inr \<lparr>fig_graph = \<lparr>nx_directed = True, nx_nodes = [0, 1, 2, 5], nx_edges = [(0, 1), (2, 5)]\<rparr>,
          fig_path_edges = [], fig_path_nodes = [], fig_title = ''Nenhum Caminho Hamiltoniano encontrado''\<rparr> \<and>
   set [0, 1, 2, 5] = {v. \<exists>u. is_edge (snd (build_graph 3 True [(0, 1), (2, 5)])) u v \<or>
                            is_edge (snd (build_graph 3 True [(0, 1), (2, 5)])) v u}"
proof -
  have h1: "nat (n (snd (build_graph 3 True [(0, 1), (2, 5)]))) \<le> length (adj (snd (build_graph 3 True [(0, 1), (2, 5)])))"
    by (simp add: py_eval)
  have h2: "visualizar_grafo (snd (build_graph 3 True [(0, 1), (2, 5)])) None =
     Inr \<lparr>fig_graph = \<lparr>nx_directed = True, nx_nodes = [0, 1, 2, 5], nx_edges = [(0, 1), (2, 5)]\<rparr>,
          fig_path_edges = [], fig_path_nodes = [], fig_title = ''Nenhum Caminho Hamiltoniano encontrado''\<rparr>"
    by (simp add: py_eval Let_def)
  show ?thesis using h1 h2 visualizar_draws_arcs[OF h1 h2] by simp
qed

lemma visualizar_search_result_witness:
  "wf_graph (snd (build_graph 3 False [(0, 1), (1, 2)])) \<and> 2 \<le> n (snd (build_graph 3 False [(0, 1), (1, 2)])) \<and>
   hamiltonian_path (snd (build_graph 3 False [(0, 1), (1, 2)])) = Inr (Some [0, 1, 2]) \<and>
   (\<exists>f. visualizar_grafo (snd (build_graph 3 False [(0, 1), (1, 2)])) (Some [0, 1, 2]) = Inr f \<and>
        fig_path_nodes f = [0, 1, 2] \<and>
        list_all (\<lambda>(a, b). nx_has_edge (fig_graph f) a b) (fig_path_edges f) \<and>
        (fig_title f = ''Caminho Hamiltoniano'' \<longleftrightarrow>
           (\<exists>q. is_ham_path (snd (build_graph 3 False [(0, 1), (1, 2)])) q)))"
proof -
  have w: "wf_graph (snd (build_graph 3 False [(0, 1), (1, 2)]))" by (simp add: py_eval)
  have k: "2 \<le> n (snd (build_graph 3 False [(0, 1), (1, 2)]))" by (simp add: py_eval)
  have h: "hamiltonian_path (snd (build_graph 3 False [(0, 1), (1, 2)])) = Inr (Some [0, 1, 2])"
    by (simp add: py_eval)
  show ?thesis using w k h visualizar_search_result[OF w k h] by simp
qed

lemma visualizar_single_vertex_error_witness:
  "wf_graph (graph_init 1 False) \<and> n (graph_init 1 False) = 1 \<and> nbrs (graph_init 1 False) 0 = [] \<and>
   hamiltonian_path (graph_init 1 False) = Inr (Some [0]) \<and>
   visualizar_grafo (graph_init 1 False) (Some [0]) = Inl NetworkXError"
proof -
  have w: "wf_graph (graph_init 1 False)" "n (graph_init 1 False) = 1" "nbrs (graph_init 1 False) 0 = []"
    by (simp_all add: py_eval)
  show ?thesis using w visualizar_single_vertex_error[OF w] by simp
qed

end
