(* ===== verification/Driver.thy ===== *)
theory Driver
  imports Output View
begin

text \<open>
  The driver block \<open>if __name__ == "__main__":\<close> of \<open>src/main.py\<close> (lines
  48--71) as a sequence of effects. Its two halves have the same shape, so
  \<open>run_scenario\<close> models one of them: print the banner, build the graph with
  \<open>Graph(...)\<close> and \<open>add_edge\<close>, \<open>g.show()\<close>, \<open>hamiltonian_path(g)\<close>, print the
  result and call \<open>visualizar_grafo\<close>. Each step's output is an \<open>event\<close>: text
  written to standard output or a drawn figure. An exception ends the program: the
  run returns the events so far and the uncaught exception. \<open>main_py\<close> runs the
  first half and, if it raised nothing, the second. The first result line passes
  the extra argument \<open>"\n"\<close> to \<open>print\<close>, the second does not.
\<close>

datatype event = Stdout string | Draw figure

definition main_g1 :: graph where
  "main_g1 = snd (build_graph 5 False [(0, 1), (1, 2), (2, 3), (3, 4), (0, 2)])"

definition main_g2 :: graph where
  "main_g2 = snd (build_graph 4 True [(0, 1), (1, 2), (2, 3), (0, 2)])"

definition run_scenario ::
  "string \<Rightarrow> int \<Rightarrow> bool \<Rightarrow> (int \<times> int) list \<Rightarrow> string list \<Rightarrow> event list \<times> view_error option" where
  "run_scenario banner k d es extra =
     (let out0 = [Stdout (py_print [banner])] in
      case build_graph k d es of
        (Some e, _) \<Rightarrow> (out0, Some (PyError e))
      | (None, g) \<Rightarrow>
          (case graph_show g of
             (s, Some e) \<Rightarrow> (out0 @ [Stdout s], Some (PyError e))
           | (s, None) \<Rightarrow>
               (case hamiltonian_path g of
                  Inl e \<Rightarrow> (out0 @ [Stdout s], Some (PyError e))
                | Inr c \<Rightarrow>
                    (let out1 = out0 @ [Stdout s,
                                        Stdout (py_print ([''Caminho Hamiltoniano:'', py_str_opt c] @ extra))]
                     in case visualizar_grafo g c of
                          Inl e \<Rightarrow> (out1, Some e)
                        | Inr f \<Rightarrow> (out1 @ [Draw f], None)))))"

definition main_py :: "event list \<times> view_error option" where
  "main_py =
     (case run_scenario (''=== Grafo N'' @ [CHR 0xC3, CHR 0x83] @ ''O DIRIGIDO ==='') 5 False
             [(0, 1), (1, 2), (2, 3), (3, 4), (0, 2)] [[nl]] of
        (ev, Some e) \<Rightarrow> (ev, Some e)
      | (ev, None) \<Rightarrow>
          (let (ev2, e2) = run_scenario ''=== Grafo DIRIGIDO ==='' 4 True
                             [(0, 1), (1, 2), (2, 3), (0, 2)] []
           in (ev @ ev2, e2)))"

fun stdout_of :: "event list \<Rightarrow> string" where
  "stdout_of [] = []"
| "stdout_of (Stdout s # evs) = s @ stdout_of evs"
| "stdout_of (Draw f # evs) = stdout_of evs"

fun figures_of :: "event list \<Rightarrow> figure list" where
  "figures_of [] = []"
| "figures_of (Stdout s # evs) = figures_of evs"
| "figures_of (Draw f # evs) = f # figures_of evs"

declare run_scenario_def [py_eval] main_py_def [py_eval]


subsection \<open>Shape of the graphs the code builds\<close>

lemma add_edge_length_adj [simp]: "length (adj (snd (add_edge g u v))) = length (adj g)"
  by (auto simp: add_edge_def split: sum.splits dest!: py_append_at_length)

lemma add_edges_shape:
  "n (snd (add_edges g es)) = n g \<and> length (adj (snd (add_edges g es))) = length (adj g)"
proof (induction g es rule: add_edges.induct)
  case (2 g u v es)
  obtain e g' where a: "add_edge g u v = (e, g')" by fastforce
  then have "n g' = n g" "length (adj g') = length (adj g)"
    using add_edge_frame(1)[of g u v] add_edge_length_adj[of g u v] by simp_all
  with 2 a show ?case by (cases e) simp_all
qed simp

lemma build_graph_shape: "length (adj (snd (build_graph k d es))) = nat (n (snd (build_graph k d es)))"
  using add_edges_shape[of "graph_init k d" es] by (simp add: build_graph_def graph_init_def)

lemma wf_main_g1: "wf_graph main_g1"
  by (simp add: main_g1_def py_eval)

lemma main_g1_path_eval: "hamiltonian_path main_g1 = Inr (Some [0, 1, 2, 3, 4])"
  by (simp add: main_g1_def py_eval)

lemma wf_main_g2: "wf_graph main_g2"
  by (simp add: main_g2_def py_eval)

subsection \<open>The program's run\<close>

text \<open>
  The concrete run of \<open>src/main.py\<close>: it raises nothing, writes exactly these lines
  to standard output (the UTF-8 bytes of the Portuguese text, the trailing space and
  empty line that the extra \<open>"\n"\<close> argument produces) and draws two figures.
\<close>

lemma main_py_run:
  "snd main_py = None \<and>
   stdout_of (fst main_py) =
     concat (map (\<lambda>l. l @ [nl])
       [''=== Grafo N'' @ [CHR 0xC3, CHR 0x83] @ ''O DIRIGIDO ==='',
        ''Grafo N'' @ [CHR 0xC3, CHR 0xA3] @ ''o dirigido:'',
        ''  0 -> [1, 2]'', ''  1 -> [0, 2]'', ''  2 -> [1, 3, 0]'', ''  3 -> [2, 4]'', ''  4 -> [3]'', '''',
        ''Caminho Hamiltoniano: [0, 1, 2, 3, 4] '', '''',
        ''=== Grafo DIRIGIDO ==='', ''Grafo Dirigido:'',
        ''  0 -> [1, 2]'', ''  1 -> [2]'', ''  2 -> [3]'', ''  3 -> []'', '''',
        ''Caminho Hamiltoniano: [0, 1, 2, 3]'']) \<and>
   map fig_title (figures_of (fst main_py)) = [''Caminho Hamiltoniano'', ''Caminho Hamiltoniano''] \<and>
   map fig_path_edges (figures_of (fst main_py)) =
     [[(0, 1), (1, 2), (2, 3), (3, 4)], [(0, 1), (1, 2), (2, 3)]]"
  by (simp add: py_eval Let_def)

text \<open>
  C26: a driver half on a graph where a path is found: for any vertex count of at
  least two and any edge list that builds a well-formed graph, the run prints the
  banner, the adjacency, then \<open>Caminho Hamiltoniano:\<close> followed by the path (and
  the extra arguments), and draws a figure titled \<open>Caminho Hamiltoniano\<close> that
  highlights exactly the path's nodes and its successive pairs, each an edge of the
  drawn graph; nothing raises.
\<close>

theorem run_scenario_path:
  assumes "build_graph k d es = (None, g)" "wf_graph g" "2 \<le> n g"
    and "hamiltonian_path g = Inr (Some q)"
  shows "\<exists>f. run_scenario b k d es extra =
      ([Stdout (py_print [b]), Stdout (fst (graph_show g)),
        Stdout (py_print ([''Caminho Hamiltoniano:'', py_repr_list q] @ extra)), Draw f], None) \<and>
    fig_title f = ''Caminho Hamiltoniano'' \<and> fig_path_nodes f = q \<and> fig_path_edges f = path_edges q \<and>
    list_all (\<lambda>(a, b). nx_has_edge (fig_graph f) a b) (path_edges q)"
proof -
  have hp: "is_ham_path g q"
    using ham_spec_sound[OF assms(2)] hamiltonian_path_ham_spec[OF assms(2)] assms(4) by blast
  have show_ok: "snd (graph_show g) = None"
    using graph_show_text[OF wf_graph_length[OF assms(2)]] by simp
  obtain G where G: "visualizar_grafo g (Some q) =
           Inr \<lparr>fig_graph = G, fig_path_edges = path_edges q, fig_path_nodes = q,
                fig_title = ''Caminho Hamiltoniano''\<rparr>"
    and E: "list_all (\<lambda>(a, b). nx_has_edge G a b) (path_edges q)"
    using visualizar_ham_path[OF assms(2,3) hp] by blast
  show ?thesis
    using assms(1,4) show_ok G E by (auto simp: run_scenario_def split: prod.splits)
qed

text \<open>
  C27: when the search finds no path, the driver prints \<open>Caminho Hamiltoniano: None\<close>
  (the spec asks for an explicit "no Hamiltonian path found" message) and the figure
  carries the title "Nenhum Caminho Hamiltoniano encontrado" with nothing
  highlighted; nothing raises.
\<close>

theorem run_scenario_no_path:
  assumes "build_graph k d es = (None, g)" "hamiltonian_path g = Inr None"
  shows "\<exists>f. run_scenario b k d es extra =
      ([Stdout (py_print [b]), Stdout (fst (graph_show g)),
        Stdout (py_print ([''Caminho Hamiltoniano:'', ''None''] @ extra)), Draw f], None) \<and>
    fig_title f = ''Nenhum Caminho Hamiltoniano encontrado'' \<and> fig_path_edges f = [] \<and>
    fig_path_nodes f = []"
proof -
  have len: "nat (n g) \<le> length (adj g)" using build_graph_shape[of k d es] assms(1) by simp
  have show_ok: "snd (graph_show g) = None" using graph_show_text[OF len] by simp
  obtain G where G: "build_nx g (nx_new (directed g)) (py_range (n g)) = Inr G"
    using build_nx_graph[OF len] by blast
  show ?thesis
    using assms show_ok visualizar_grafo_no_path[OF G, of None]
    by (auto simp: run_scenario_def split: prod.splits)
qed

text \<open>
  C28: \<open>g.show()\<close> never raises on a graph the program can build: whatever the
  vertex count and whichever \<open>add_edge\<close> calls were made, including ones that raised
  half-way, \<open>adj\<close> keeps one list per vertex, so \<open>self.adj[i]\<close> is always in range.
\<close>

theorem graph_show_built_no_error: "snd (graph_show (snd (build_graph k d es))) = None"
  using graph_show_text[of "snd (build_graph k d es)"] build_graph_shape[of k d es] by simp

lemma run_scenario_path_witness:
  "build_graph 5 False [(0, 1), (1, 2), (2, 3), (3, 4), (0, 2)] = (None, main_g1) \<and>
   wf_graph main_g1 \<and> 2 \<le> n main_g1 \<and> hamiltonian_path main_g1 = Inr (Some [0, 1, 2, 3, 4]) \<and>
   (\<exists>f. run_scenario ''x'' 5 False [(0, 1), (1, 2), (2, 3), (3, 4), (0, 2)] [] =
      ([Stdout (py_print [''x'']), Stdout (fst (graph_show main_g1)),
        Stdout (py_print ([''Caminho Hamiltoniano:'', py_repr_list [0, 1, 2, 3, 4]] @ [])), Draw f], None) \<and>
    fig_title f = ''Caminho Hamiltoniano'' \<and> fig_path_nodes f = [0, 1, 2, 3, 4] \<and>
    fig_path_edges f = path_edges [0, 1, 2, 3, 4] \<and>
    list_all (\<lambda>(a, b). nx_has_edge (fig_graph f) a b) (path_edges [0, 1, 2, 3, 4]))"
proof -
  have b: "build_graph 5 False [(0, 1), (1, 2), (2, 3), (3, 4), (0, 2)] = (None, main_g1)"
    by (simp add: main_g1_def py_eval)
  have k: "2 \<le> n main_g1" by (simp add: main_g1_def py_eval)
  show ?thesis
    using b wf_main_g1 k main_g1_path_eval
      run_scenario_path[OF b wf_main_g1 k main_g1_path_eval, of "''x''" "[]"]
    by blast
qed

lemma run_scenario_no_path_witness:
  "build_graph 3 False [(0, 1)] = (None, snd (build_graph 3 False [(0, 1)])) \<and>
   hamiltonian_path (snd (build_graph 3 False [(0, 1)])) = Inr None \<and>
   (\<exists>f. run_scenario ''x'' 3 False [(0, 1)] [] =
      ([Stdout (py_print [''x'']), Stdout (fst (graph_show (snd (build_graph 3 False [(0, 1)])))),
        Stdout (py_print ([''Caminho Hamiltoniano:'', ''None''] @ [])), Draw f], None) \<and>
    fig_title f = ''Nenhum Caminho Hamiltoniano encontrado'' \<and> fig_path_edges f = [] \<and>
    fig_path_nodes f = [])"
proof -
  have b: "build_graph 3 False [(0, 1)] = (None, snd (build_graph 3 False [(0, 1)]))"
    by (simp add: py_eval)
  have h: "hamiltonian_path (snd (build_graph 3 False [(0, 1)])) = Inr None"
    by (simp add: py_eval)
  show ?thesis using b h run_scenario_no_path[OF b h, of "''x''" "[]"] by simp
qed

end
