(* ===== verification/Spec2Isabelle.thy ===== *)
theory Spec2Isabelle
  imports Driver
begin

text \<open>
  \<^bold>\<open>Hamiltonian-path search of \<open>src/main.py\<close>: a shallow embedding.\<close>

  \<^bold>\<open>The program.\<close> \<open>src/main.py\<close> has three parts. The class \<open>Graph\<close>
  (lines 3--19) keeps a vertex count \<open>n\<close>, a flag \<open>directed\<close> and one Python
  list of neighbours per vertex, \<open>adj\<close>, in insertion order; \<open>add_edge(u, v)\<close>
  appends \<open>v\<close> to \<open>adj[u]\<close> and, when undirected, \<open>u\<close> to \<open>adj[v]\<close>;
  \<open>show()\<close> prints the adjacency. The function \<open>hamiltonian_path(graph)\<close>
  (lines 22--46) reads the graph only: for each start vertex in \<open>range(n)\<close> it runs
  the local recursive \<open>backtrack(v, visited, path)\<close>, which returns the path once it
  has \<open>n\<close> vertices and otherwise tries every unvisited neighbour of \<open>v\<close> in order,
  pushing it on \<open>path\<close> and into \<open>visited\<close>, recursing, and popping it again when
  the recursion fails. The driver (lines 48--71) builds two example graphs, shows
  them, prints the search results and draws each graph with the path highlighted by
  \<open>visualizar_grafo\<close> of \<open>src/view.py\<close>, which builds a \<open>networkx\<close> graph from
  \<open>adj\<close> and hands it, the path edges and the title to matplotlib.

  \<^bold>\<open>Theories.\<close>
  \<^item> \<open>Prelude\<close>: the Python primitives the code relies on, each with its exception
    as a value of \<open>py_error\<close>: list indexing with negative indices (\<open>py_idx\<close>,
    \<open>py_get\<close>, \<open>py_append_at\<close>), \<open>list.pop\<close>, \<open>set.remove\<close>, the truth value
    of \<open>if result:\<close>, \<open>range\<close>; the \<open>py_eval\<close> collection that evaluates them.
  \<^item> \<open>Graph\<close>: the record \<open>graph\<close> (fields \<open>n\<close>, \<open>directed\<close>, \<open>adj\<close>),
    \<open>graph_init\<close> (\<open>Graph.__init__\<close>), \<open>add_edge\<close> (\<open>Graph.add_edge\<close>, returning
    the possibly half-updated graph with the exception raised), \<open>add_edges\<close> and
    \<open>build_graph\<close> (the driver's construction). Lemmas: functional behaviour of
    \<open>add_edge\<close>, the invariant \<open>wf_graph\<close>, the symmetry invariant \<open>sym_adj\<close>,
    refinement to the abstract arc set \<open>edges_of\<close>, and every error branch.
  \<^item> \<open>Search\<close>: the record \<open>search_state\<close> (\<open>visited\<close>, \<open>path\<close>), the mutually
    recursive \<open>backtrack\<close> and \<open>explore\<close> (the inner function and its \<open>for\<close> loop,
    with the state passed in and returned), \<open>search_starts\<close> (the outer loop) and
    \<open>hamiltonian_path\<close>. Lemmas: the strict backtracking invariant (a failed call
    returns its state unchanged), termination, refinement to the reference
    enumeration \<open>extensions\<close>/\<open>ham_spec\<close>, soundness and completeness against
    \<open>is_ham_path\<close>.
  \<^item> \<open>Output\<close>: standard output as a byte string. \<open>py_str_int\<close>,
    \<open>py_repr_list\<close> and \<open>py_str_opt\<close> are Python's \<open>str\<close> of the printed values,
    \<open>py_print\<close> is \<open>print\<close> (arguments joined by a space, then a newline),
    \<open>graph_show\<close> with \<open>show_header\<close>, \<open>show_row\<close> and \<open>show_rows\<close> is
    \<open>Graph.show\<close>, returning the text written and the IndexError of
    \<open>self.adj[i]\<close> if it occurs. The reader \<open>read_show\<close> and \<open>parse_list\<close> (not code)
    recover the graph from the text.
  \<^item> \<open>View\<close>: \<open>visualizar_grafo\<close> as the data it hands to the drawing library:
    the record \<open>nx_graph\<close> with \<open>nx_add_edge\<close> (\<open>G.add_edge\<close>), the loops
    \<open>add_nbr_edges\<close> and \<open>build_nx\<close>, \<open>path_edges\<close> (the \<open>edges_path\<close>
    comprehension), \<open>has_pos\<close> (the nodes \<open>spring_layout\<close> places) and the
    resulting \<open>figure\<close>, or the \<open>view_error\<close> that networkx raises.
  \<^item> \<open>Driver\<close>: the example graphs \<open>main_g1\<close>, \<open>main_g2\<close>, and the whole
    \<open>__main__\<close> block \<open>main_py\<close> as a list of \<open>event\<close>s (stdout text, drawn
    figures) with the uncaught exception if any; \<open>run_scenario\<close> is one half.
  \<^item> this theory: the properties that span the components: search results on graphs
    built by \<open>build_graph\<close>, the spec's test properties (complete graphs,
    isolated vertices, arc direction), the search on graphs that
    \<open>add_edge\<close> left ill-formed, and termination.

  \<^bold>\<open>Termination.\<close> No fuel is used. \<open>backtrack\<close>/\<open>explore\<close> is a
  \<^theory_text>\<open>function\<close> whose termination is proved with the lexicographic measure
  \<open>search_measure\<close>: the number of stored neighbours not yet visited, then the call
  kind, then the neighbours left in the loop. The restoring step recurses on the state
  returned by the nested call, so the proof uses \<open>backtrack_explore_restore_dom\<close>,
  the restore invariant proved by partial induction before termination is known. The
  reader \<open>read_items\<close> terminates because every integer read consumes input. All
  other loops are structural recursion over lists.

  \<^bold>\<open>What the theorems show.\<close> On well-formed graphs the search never raises, returns
  exactly the first Hamiltonian path in the order "start vertices ascending, neighbours
  in insertion order" (C1), only Hamiltonian paths (C2), and one whenever one exists
  and \<open>n > 0\<close> (C3); failed calls restore the state (C4); a success returns the
  path object itself with \<open>visited\<close> equal to its vertex set (C5). For \<open>n \<le> 0\<close> the
  search reports absence (C6), whereas the spec asks for an empty-path sentinel.
  Construction (C7--C8) builds well-formed, correctly directed, symmetric graphs; the
  error branches (C9--C12) show that \<open>add_edge\<close> does not validate as the spec asks:
  directed targets are never checked, negative indices alias vertices from the end (and
  in an undirected graph the raw negative value is stored) and undirected insertions
  can fail half-way. C13--C16 are the spec's test properties: directed results follow
  inserted arcs, complete graphs yield a Hamiltonian path, an isolated vertex yields
  none, a single vertex yields \<open>[0]\<close>. On ill-formed graphs the last vertex of a
  path is appended without being looked up, so an out-of-range or aliasing value
  completes a reported path (C17), and a dangling entry met first makes the whole
  search raise even when another start has a path (C18). Self-loops and repeated
  edges leave the result unchanged (C19--C20). \<open>visited.remove\<close> never raises on
  any graph (C21). The text printed by \<open>show\<close> reads back to the graph's
  directedness and adjacency lists (C22). The drawing shows exactly the arcs and only
  vertices that have one (C23); drawing the search result on a graph with two or more
  vertices highlights edges of the drawn graph and titles the figure by existence of
  a path (C24), but a single vertex without a self-loop makes \<open>visualizar_grafo\<close>
  raise NetworkXError (C25). A driver half prints the path and draws it when one is
  found (C26), prints \<open>None\<close> rather than the spec's message when none is (C27), and
  \<open>show\<close> never raises on a graph the code built (C28). The search terminates on
  every input (C29) and raises only when a stored neighbour is not a valid Python
  index (C30).

  \<^bold>\<open>Plan.\<close> Modelled in this order: the Python primitives, \<open>Graph\<close>, the search
  (the program's core), then the text output, the visualization and the driver.
  On ill-formed graphs C21 and C30 say when the search raises; which stored
  non-vertices make it return a list that is not a Hamiltonian path is shown by the
  last-step mechanism (C17) and not characterised in general. The concrete driver run
  is evaluated in \<open>Driver\<close> (\<open>main_py_run\<close>) as a check of the model, not as a
  property.

  \<^bold>\<open>Not modelled.\<close> What matplotlib does with the data: the node coordinates
  computed by \<open>nx.spring_layout\<close> (only which nodes get one), colours, sizes, and
  \<open>plt.show()\<close>, which opens a window and returns nothing the program uses. The
  networkx behaviour the model relies on (nodes enter a graph with its edges, an
  undirected edge is stored once, nodes without a position make
  \<open>draw_networkx_nodes\<close> raise) is that of networkx 3. The module imports (line 1 of
  each file) have no effect beyond binding names.
\<close>

subsection \<open>Shared facts\<close>

lemma is_ham_path_set:
  assumes "is_ham_path g q"
  shows "set q = {0..<n g}"
proof (rule card_subset_eq)
  show "finite {0..<n g}" by simp
  show "set q \<subseteq> {0..<n g}" using assms by (auto simp: is_ham_path_def list_all_iff is_vertex_def)
  have "card (set q) = length q" using assms by (simp add: is_ham_path_def distinct_card)
  moreover have "n g = int (length q)" using assms by (simp add: is_ham_path_def)
  ultimately show "card (set q) = card {0..<n g}" by simp
qed

lemma all_vertices_iff: "(\<forall>u. is_vertex g u \<longrightarrow> P u) \<longleftrightarrow> list_all P (py_range (n g))"
  by (auto simp: list_all_iff is_vertex_def)


lemma search_index_safe:
  "\<forall>xs \<in> set (adj g). \<forall>w \<in> set xs. py_idx (length (adj g)) w \<noteq> None \<Longrightarrow>
   py_idx (length (adj g)) v \<noteq> None \<Longrightarrow> backtrack g v st \<noteq> Inl IndexError"
  "\<forall>xs \<in> set (adj g). \<forall>w \<in> set xs. py_idx (length (adj g)) w \<noteq> None \<Longrightarrow>
   \<forall>w \<in> set ws. py_idx (length (adj g)) w \<noteq> None \<Longrightarrow> explore g ws st \<noteq> Inl IndexError"
proof (induction g v st and g ws st rule: backtrack_explore.induct)
  case (1 g v st)
  show ?case
  proof (cases "int (length (path st)) = n g")
    case False
    from "1.prems"(2) obtain ws where get: "py_get (adj g) v = Inr ws"
      by (auto simp: py_get_def split: option.splits)
    then have "ws \<in> set (adj g)" by (rule py_get_set)
    with "1.prems"(1) have "\<forall>w \<in> set ws. py_idx (length (adj g)) w \<noteq> None" by blast
    with 1(1)[OF False get "1.prems"(1)] False get show ?thesis by (simp add: backtrack.simps)
  qed (simp add: backtrack.simps)
next
  case (2 g st)
  then show ?case by simp
next
  case (3 g w ws st)
  let ?st1 = "st\<lparr>visited := insert w (visited st), path := path st @ [w]\<rparr>"
  show ?case
  proof (cases "w \<in> visited st")
    case True
    with 3 show ?thesis by simp
  next
    case False
    show ?thesis
    proof (cases "backtrack g w ?st1")
      case (Inl e)
      then have "e \<noteq> IndexError" using 3(2)[OF False "3.prems"(1)] "3.prems"(2) by auto
      with False Inl show ?thesis by simp
    next
      case (Inr res)
      obtain r st' where res: "res = (r, st')" by (cases res)
      show ?thesis
      proof (cases "py_truthy r")
        case True
        with False Inr res show ?thesis by simp
      next
        case fr: False
        have "st' = ?st1"
          using backtrack_explore_restore_dom(1)[OF backtrack_explore_dom_all(1)] Inr res fr by blast
        then have rm: "py_set_remove w (visited st') = Inr (visited st)"
          and pp: "py_pop (path st') = Inr (path st)" using False by simp_all
        have "explore g ws (st'\<lparr>visited := visited st, path := path st\<rparr>) \<noteq> Inl IndexError"
          using 3(3)[OF False Inr res[symmetric] fr rm pp "3.prems"(1)] "3.prems"(2) by simp
        with False Inr res fr rm pp show ?thesis by simp
      qed
    qed
  qed
qed

lemma alias_graph: "adj (snd (build_graph 3 True [(0, 2), (2, -1)])) = [[2], [], [-1]]" "n (snd (build_graph 3 True [(0, 2), (2, -1)])) = 3"
  by (simp_all add: py_eval)
lemma explore_first_fresh:
  assumes "int (length p) + 1 = n g"
  shows "filter (\<lambda>w. w \<notin> set p) ws = w # rest \<Longrightarrow>
         explore g ws (state_of p) = Inr (Some (p @ [w]), state_of (p @ [w]))"
proof (induction ws)
  case (Cons x xs)
  show ?case
  proof (cases "x \<in> set p")
    case True
    with Cons show ?thesis by simp
  next
    case False
    with Cons.prems have x: "x = w" by simp
    have "backtrack g w (state_of (p @ [w])) = Inr (Some (p @ [w]), state_of (p @ [w]))"
      using assms by (simp add: backtrack.simps)
    with x False show ?thesis by (simp add: state_of_def)
  qed
qed simp

lemma explore_first_dangling:
  assumes "int (length p) + 1 < n g" "py_idx (length (adj g)) w = None"
  shows "filter (\<lambda>w. w \<notin> set p) ws = w # rest \<Longrightarrow> explore g ws (state_of p) = Inl IndexError"
proof (induction ws)
  case (Cons x xs)
  show ?case
  proof (cases "x \<in> set p")
    case True
    with Cons show ?thesis by simp
  next
    case False
    with Cons.prems have x: "x = w" by simp
    have "backtrack g w (state_of (p @ [w])) = Inl IndexError"
      using assms by (simp add: backtrack.simps py_get_def)
    with x False show ?thesis by (simp add: state_of_def)
  qed
qed simp

lemma backtrack_dangling:
  assumes "int (length p) + 1 < n g" "py_get (adj g) v = Inr ws"
    and "filter (\<lambda>w. w \<notin> set p) ws = w # rest" "py_idx (length (adj g)) w = None"
  shows "backtrack g v (state_of p) = Inl IndexError"
proof -
  have "int (length p) \<noteq> n g" using assms(1) by simp
  with assms(2) explore_first_dangling[OF assms(1,4) assms(3)] show ?thesis
    by (simp add: backtrack.simps)
qed

subsection \<open>Properties across the components\<close>

text \<open>
  C13: a directed graph built from valid edges never yields a path that uses an arc
  against its inserted direction: every consecutive pair of the result is an
  inserted edge \<open>(u, v)\<close>.
\<close>

theorem directed_path_respects_edges:
  assumes "list_all (valid_edge (graph_init k True)) es"
    and "hamiltonian_path (snd (build_graph k True es)) = Inr (Some q)"
  shows "successively (\<lambda>u v. (u, v) \<in> set es) q"
proof -
  have "directed (graph_init k True)" by (simp add: graph_init_def)
  then obtain g where g: "build_graph k True es = (None, g)" "wf_graph g" "edges_of g = set es"
    using add_edges_run[OF graph_init_wf assms(1)] by (auto simp: build_graph_def graph_init_edges)
  have "ham_spec g = Some q" using assms(2) g by (simp add: hamiltonian_path_ham_spec)
  then have "successively (is_edge g) q" using ham_spec_sound[OF g(2)] by (simp add: is_ham_path_def)
  then show ?thesis by (rule successively_mono) (use g(3) in \<open>auto simp: edges_of_def\<close>)
qed

text \<open>
  C14: on a well-formed graph in which every vertex is adjacent to every other (the
  complete graph \<open>K_n\<close>), \<open>n \<ge> 1\<close>, the search returns a list, and that list is
  a Hamiltonian path.
\<close>

theorem complete_graph_has_path:
  assumes "wf_graph g" "0 < n g"
    and "\<forall>u. is_vertex g u \<longrightarrow> (\<forall>v. is_vertex g v \<longrightarrow> u \<noteq> v \<longrightarrow> v \<in> set (nbrs g u))"
  shows "\<exists>q. hamiltonian_path g = Inr (Some q) \<and> is_ham_path g q"
proof -
  let ?q = "py_range (n g)"
  have "successively (is_edge g) ?q"
    using assms(3) by (auto simp: successively_conv_nth py_range_def is_edge_def is_vertex_def)
  then have "is_ham_path g ?q"
    using assms(2) by (simp add: is_ham_path_def py_range_def list_all_iff is_vertex_def)
  then have "ham_spec g \<noteq> None" using assms(2) by (rule ham_spec_complete)
  then obtain q where "ham_spec g = Some q" by blast
  with ham_spec_sound[OF assms(1)] show ?thesis by (auto simp: hamiltonian_path_ham_spec[OF assms(1)])
qed

text \<open>
  C15: a well-formed graph with more than one vertex and a vertex \<open>x\<close> of degree
  zero (no arc leaves or enters it) has no Hamiltonian path, and the search reports
  absence.
\<close>

theorem isolated_vertex_no_path:
  assumes "wf_graph g" "1 < n g" "is_vertex g x" "nbrs g x = []"
    and "\<forall>u. is_vertex g u \<longrightarrow> x \<notin> set (nbrs g u)"
  shows "hamiltonian_path g = Inr None"
proof (cases "ham_spec g")
  case None
  then show ?thesis by (simp add: hamiltonian_path_ham_spec[OF assms(1)])
next
  case (Some q)
  then have h: "is_ham_path g q" using ham_spec_sound[OF assms(1)] by simp
  then have "x \<in> set q" using assms(3) is_ham_path_set[OF h] by (simp add: is_vertex_def)
  then obtain i where i: "i < length q" "q ! i = x" by (auto simp: in_set_conv_nth)
  have len: "2 \<le> length q" using h assms(2) by (simp add: is_ham_path_def)
  have sq: "successively (is_edge g) q" using h by (simp add: is_ham_path_def)
  show ?thesis
  proof (cases "Suc i < length q")
    case True
    with sq have "is_edge g (q ! i) (q ! Suc i)" by (rule successively_nth)
    with i assms(4) show ?thesis by (simp add: is_edge_def)
  next
    case False
    with i len have j: "Suc (i - 1) < length q" "Suc (i - 1) = i" by auto
    from sq j(1) have "is_edge g (q ! (i - 1)) (q ! Suc (i - 1))" by (rule successively_nth)
    with i j assms(5) show ?thesis by (auto simp: is_edge_def)
  qed
qed

text \<open>
  C16: a well-formed graph with one vertex yields the path \<open>[0]\<close>, whatever its
  adjacency (self-loops included).
\<close>

theorem single_vertex_path:
  assumes "wf_graph g" "n g = 1"
  shows "hamiltonian_path g = Inr (Some [0])"
  using assms by (simp add: hamiltonian_path_ham_spec ham_spec_def py_range_def)

text \<open>
  C19: self-loops are inert: adding the edge \<open>(u, u)\<close> to a well-formed graph
  leaves the search result unchanged, since \<open>u\<close> is always visited when it is
  the current vertex.
\<close>

theorem self_loop_inert:
  assumes "wf_graph g" "is_vertex g u"
  shows "hamiltonian_path (snd (add_edge g u u)) = hamiltonian_path g"
proof -
  have wf': "wf_graph (snd (add_edge g u u))" using assms by (rule add_edge_wf) (rule assms(2))
  have "ham_spec (snd (add_edge g u u)) = ham_spec g"
    using ham_spec_dup_nbrs[OF assms(1) dup_nbrs_self_loop[OF assms]] by simp
  moreover have "hamiltonian_path g = Inr (ham_spec g)"
    using hamiltonian_path_ham_spec[OF assms(1)] by simp
  moreover have "hamiltonian_path (snd (add_edge g u u)) = Inr (ham_spec (snd (add_edge g u u)))"
    using hamiltonian_path_ham_spec[OF wf'] by simp
  ultimately show ?thesis by simp
qed

text \<open>
  C20: parallel edges are inert: inserting an edge that is already present (in both
  directions when the graph is undirected) leaves the search result unchanged.
\<close>

theorem parallel_edge_inert:
  assumes "wf_graph g" "is_vertex g u" "is_vertex g v" "v \<in> set (nbrs g u)"
    and "\<not> directed g \<longrightarrow> u \<in> set (nbrs g v)"
  shows "hamiltonian_path (snd (add_edge g u v)) = hamiltonian_path g"
proof -
  have wf': "wf_graph (snd (add_edge g u v))" using assms(1-3) by (rule add_edge_wf)
  have "ham_spec (snd (add_edge g u v)) = ham_spec g"
    using ham_spec_dup_nbrs[OF assms(1) dup_nbrs_parallel[OF assms]] by simp
  moreover have "hamiltonian_path g = Inr (ham_spec g)"
    using hamiltonian_path_ham_spec[OF assms(1)] by simp
  moreover have "hamiltonian_path (snd (add_edge g u v)) = Inr (ham_spec (snd (add_edge g u v)))"
    using hamiltonian_path_ham_spec[OF wf'] by simp
  ultimately show ?thesis by simp
qed

subsection \<open>The search on ill-formed graphs\<close>

text \<open>
  C17: the last vertex of a path is never looked up. When the path lacks one vertex,
  \<open>backtrack\<close> appends the first stored neighbour of \<open>v\<close> that is not yet in
  \<open>visited\<close> and returns at once, without evaluating \<open>graph.adj\<close> at it: an
  out-of-range value stored by a directed \<open>add_edge\<close> (\<open>[0, 5]\<close> on two vertices)
  or a negative alias (\<open>[0, 2, -1]\<close> on three vertices, \<open>-1\<close> naming vertex 2
  again) completes a list that is reported as a Hamiltonian path.
\<close>

theorem last_step_unchecked:
  assumes "int (length p) + 1 = n g" "py_get (adj g) v = Inr ws"
    and "filter (\<lambda>w. w \<notin> set p) ws = w # rest"
  shows "backtrack g v (state_of p) = Inr (Some (p @ [w]), state_of (p @ [w]))"
proof -
  have "int (length p) \<noteq> n g" using assms(1) by simp
  with assms(2) explore_first_fresh[OF assms(1,3)] show ?thesis by (simp add: backtrack.simps)
qed

text \<open>
  C18: one dangling entry reached first crashes the whole search. With at least three
  vertices, if the first neighbour other than 0 stored for vertex 0 is not a valid
  index of \<open>adj\<close>, the search raises IndexError on its first branch, even when
  another start vertex has a Hamiltonian path: neither presence nor absence is
  reported.
\<close>

theorem dangling_arc_raises:
  assumes "2 < n g" "nat (n g) \<le> length (adj g)"
    and "filter (\<lambda>w. w \<noteq> 0) (nbrs g 0) = w # rest" "py_idx (length (adj g)) w = None"
  shows "hamiltonian_path g = Inl IndexError"
proof -
  have r: "py_range (n g) = 0 # [1..n g - 1]" using assms(1) by (simp add: py_range_def upto_rec1)
  have "n g \<le> int (length (adj g))" using assms(2) by (simp add: nat_le_iff)
  then have "0 < int (length (adj g))" using assms(1) by linarith
  then have get: "py_get (adj g) 0 = Inr (nbrs g 0)" by (simp add: nbrs_def)
  have "filter (\<lambda>w. w \<notin> set [0]) (nbrs g 0) = w # rest" using assms(3) by simp
  then have "backtrack g 0 (state_of [0]) = Inl IndexError"
    using backtrack_dangling[OF _ get _ assms(4)] assms(1) by simp
  then show ?thesis by (simp add: hamiltonian_path_def r state_of_def)
qed

text \<open>
  C29: the search terminates on every input: \<open>backtrack\<close> and \<open>explore\<close> are in
  their domain for every graph, vertex, neighbour list and state, ill-formed graphs
  (dangling arcs, self-loops) and states that do not match the path included; no
  fuel bounds the recursion.
\<close>

theorem search_terminates:
  "backtrack_explore_dom (Inl (g, v, \<lparr>visited = V, path = p\<rparr>)) \<and>
   backtrack_explore_dom (Inr (g, ws, \<lparr>visited = V, path = p\<rparr>))"
  by (simp add: backtrack_explore_dom_all)

text \<open>
  C30: the search raises only on dangling entries: if \<open>adj\<close> has a list for every
  vertex and every stored neighbour is a valid Python index of \<open>adj\<close> (negative
  ones included), \<open>hamiltonian_path\<close> returns a value, with no exception.
\<close>

theorem search_index_safe_total:
  assumes "nat (n g) \<le> length (adj g)"
    and "\<forall>xs \<in> set (adj g). \<forall>w \<in> set xs. py_idx (length (adj g)) w \<noteq> None"
  shows "\<exists>r. hamiltonian_path g = Inr r"
proof -
  have "set ss \<subseteq> {0..<n g} \<Longrightarrow> \<exists>r. search_starts g ss = Inr r" for ss
  proof (induction ss)
    case (Cons s ss)
    have "py_idx (length (adj g)) s \<noteq> None" using Cons.prems assms(1) by (auto simp: py_idx_def)
    then have "backtrack g s \<lparr>visited = {s}, path = [s]\<rparr> \<noteq> Inl IndexError"
      by (rule search_index_safe(1)[OF assms(2)])
    moreover have "backtrack g s \<lparr>visited = {s}, path = [s]\<rparr> \<noteq> Inl KeyError"
      by (rule search_no_key_error(1))
    ultimately have "\<forall>e. backtrack g s \<lparr>visited = {s}, path = [s]\<rparr> \<noteq> Inl e"
      by (metis py_error.exhaust)
    then obtain res where b: "backtrack g s \<lparr>visited = {s}, path = [s]\<rparr> = Inr res"
      by (cases "backtrack g s \<lparr>visited = {s}, path = [s]\<rparr>") auto
    obtain r st' where "res = (r, st')" by (cases res)
    with b Cons show ?case by auto
  qed simp
  then show ?thesis by (simp add: hamiltonian_path_def)
qed

subsection \<open>Witnesses\<close>

theorem hamiltonian_path_refines_witness:
  "wf_graph main_g1 \<and> hamiltonian_path main_g1 = Inr (ham_spec main_g1)"
  using wf_main_g1 hamiltonian_path_refines[OF wf_main_g1] by simp

theorem hamiltonian_path_sound_witness:
  "wf_graph main_g2 \<and> hamiltonian_path main_g2 = Inr (Some [0, 1, 2, 3]) \<and>
   is_ham_path main_g2 [0, 1, 2, 3]"
proof -
  have r: "hamiltonian_path main_g2 = Inr (Some [0, 1, 2, 3])"
    by (simp add: main_g2_def py_eval)
  show ?thesis using wf_main_g2 r hamiltonian_path_sound[OF wf_main_g2 r] by simp
qed

theorem hamiltonian_path_complete_witness:
  "wf_graph main_g1 \<and> 0 < n main_g1 \<and>
   ((\<exists>q. hamiltonian_path main_g1 = Inr (Some q)) \<longleftrightarrow> (\<exists>q. is_ham_path main_g1 q))"
proof -
  have n: "0 < n main_g1" by (simp add: main_g1_def py_eval)
  show ?thesis using wf_main_g1 n hamiltonian_path_complete[OF wf_main_g1 n] by simp
qed

theorem backtrack_restores_witness:
  "backtrack (snd (build_graph 3 False [(0, 1)])) 2 (state_of [2]) = Inr (None, state_of [2])"
proof -
  obtain st' where b: "backtrack (snd (build_graph 3 False [(0, 1)])) 2 (state_of [2]) = Inr (None, st')"
    by (simp add: py_eval)
  then have "st' = state_of [2]" by (rule backtrack_restores) simp
  with b show ?thesis by simp
qed

theorem backtrack_success_state_witness:
  "\<exists>st'. backtrack main_g1 (last [0]) (state_of [0]) = Inr (Some [0, 1, 2, 3, 4], st') \<and>
         path st' = [0, 1, 2, 3, 4] \<and> visited st' = {0, 1, 2, 3, 4}"
proof -
  have p: "partial_path main_g1 [0]" by (simp add: main_g1_def py_eval partial_path_def)
  obtain st' where b: "backtrack main_g1 (last [0]) (state_of [0]) = Inr (Some [0, 1, 2, 3, 4], st')"
    by (simp add: main_g1_def py_eval)
  with backtrack_success_state[OF wf_main_g1 p b] show ?thesis by auto
qed

theorem hamiltonian_path_nonpositive_witness:
  "hamiltonian_path (graph_init 0 False) = Inr None \<and> is_ham_path (graph_init 0 False) []"
  using hamiltonian_path_nonpositive[of "graph_init 0 False"] by (simp add: graph_init_def)

theorem build_graph_refines_witness:
  "\<exists>g. build_graph 5 False [(0, 1), (1, 2), (2, 3), (3, 4), (0, 2)] = (None, g) \<and>
       wf_graph g \<and> n g = 5 \<and> directed g = False \<and>
       edges_of g = set [(0, 1), (1, 2), (2, 3), (3, 4), (0, 2)] \<union>
         (if False then {} else (set [(0, 1), (1, 2), (2, 3), (3, 4), (0, 2)])\<inverse>)"
  by (rule build_graph_refines) (simp add: py_eval)

theorem build_graph_sym_witness:
  "sym_adj (snd (build_graph 5 False [(0, 1), (1, 2), (2, 3), (3, 4), (0, 2)]))"
proof -
  have "list_all (valid_edge (graph_init 5 False)) [(0, 1), (1, 2), (2, 3), (3, 4), (0, 2)]"
    by (simp add: py_eval)
  then show ?thesis by (rule build_graph_sym)
qed

theorem add_edge_bad_source_witness: "add_edge main_g1 7 0 = (Some IndexError, main_g1)"
proof -
  have "7 < - n main_g1 \<or> n main_g1 \<le> 7" by (simp add: main_g1_def py_eval)
  then show ?thesis by (rule add_edge_bad_source[OF wf_main_g1])
qed

theorem add_edge_partial_update_witness:
  "add_edge main_g1 0 9 = (Some IndexError, main_g1\<lparr>adj := (adj main_g1)[nat 0 := nbrs main_g1 0 @ [9]]\<rparr>) \<and>
   \<not> wf_graph (snd (add_edge main_g1 0 9))"
  by (rule add_edge_partial_update[OF wf_main_g1]) (simp_all add: main_g1_def py_eval)

theorem add_edge_directed_unchecked_witness:
  "add_edge main_g2 0 5 = (None, main_g2\<lparr>adj := (adj main_g2)[nat 0 := nbrs main_g2 0 @ [5]]\<rparr>) \<and>
   (wf_graph (snd (add_edge main_g2 0 5)) \<longleftrightarrow> is_vertex main_g2 5)"
  by (rule add_edge_directed_unchecked[OF wf_main_g2]) (simp_all add: main_g2_def py_eval)

theorem add_edge_negative_alias_witness:
  "\<not> directed main_g1 \<and> \<not> wf_graph (snd (add_edge main_g1 (-1) 0)) \<and>
   fst (add_edge main_g1 (-1) 0) = None"
proof -
  have d: "\<not> directed main_g1" and v: "is_vertex main_g1 (n main_g1 + -1)"
    and v0: "is_vertex main_g1 0"
    by (simp_all add: main_g1_def py_eval)
  note t = add_edge_negative_alias[OF wf_main_g1 _ v v0, simplified]
  from conjunct2[OF t] d have nw: "\<not> wf_graph (snd (add_edge main_g1 (-1) 0))" by blast
  from conjunct1[OF t] have f: "fst (add_edge main_g1 (-1) 0) = None" by (simp add: Let_def)
  from d nw f show ?thesis by blast
qed

theorem directed_path_respects_edges_witness:
  "successively (\<lambda>u v. (u, v) \<in> set [(0, 1), (1, 2), (2, 3), (0, 2)]) [0, 1, 2, (3::int)]"
proof -
  have e: "list_all (valid_edge (graph_init 4 True)) [(0, 1), (1, 2), (2, 3), (0, 2)]"
    by (simp add: py_eval)
  have "hamiltonian_path (snd (build_graph 4 True [(0, 1), (1, 2), (2, 3), (0, 2)])) =
          Inr (Some [0, 1, 2, 3])"
    by (simp add: py_eval)
  with e show ?thesis by (rule directed_path_respects_edges)
qed

theorem complete_graph_has_path_witness:
  "\<exists>q. hamiltonian_path (snd (build_graph 3 False [(0, 1), (0, 2), (1, 2)])) = Inr (Some q) \<and>
       is_ham_path (snd (build_graph 3 False [(0, 1), (0, 2), (1, 2)])) q"
proof (rule complete_graph_has_path)
  show "wf_graph (snd (build_graph 3 False [(0, 1), (0, 2), (1, 2)]))"
    by (simp add: py_eval)
  show "0 < n (snd (build_graph 3 False [(0, 1), (0, 2), (1, 2)]))"
    by (simp add: py_eval)
  show "\<forall>u. is_vertex (snd (build_graph 3 False [(0, 1), (0, 2), (1, 2)])) u \<longrightarrow>
          (\<forall>v. is_vertex (snd (build_graph 3 False [(0, 1), (0, 2), (1, 2)])) v \<longrightarrow> u \<noteq> v \<longrightarrow>
          v \<in> set (nbrs (snd (build_graph 3 False [(0, 1), (0, 2), (1, 2)])) u))"
    unfolding all_vertices_iff by (simp add: py_eval all_vertices_iff)
qed

theorem isolated_vertex_no_path_witness:
  "hamiltonian_path (snd (build_graph 3 True [(0, 1), (1, 0)])) = Inr None"
proof (rule isolated_vertex_no_path)
  show "wf_graph (snd (build_graph 3 True [(0, 1), (1, 0)]))" by (simp add: py_eval)
  show "1 < n (snd (build_graph 3 True [(0, 1), (1, 0)]))" by (simp add: py_eval)
  show "is_vertex (snd (build_graph 3 True [(0, 1), (1, 0)])) 2" by (simp add: py_eval)
  show "nbrs (snd (build_graph 3 True [(0, 1), (1, 0)])) 2 = []" by (simp add: py_eval)
  show "\<forall>u. is_vertex (snd (build_graph 3 True [(0, 1), (1, 0)])) u \<longrightarrow>
          2 \<notin> set (nbrs (snd (build_graph 3 True [(0, 1), (1, 0)])) u)"
    unfolding all_vertices_iff by (simp add: py_eval)
qed

theorem single_vertex_path_witness:
  "hamiltonian_path (snd (build_graph 1 False [(0, 0)])) = Inr (Some [0])"
proof (rule single_vertex_path)
  show "wf_graph (snd (build_graph 1 False [(0, 0)]))" by (simp add: py_eval)
  show "n (snd (build_graph 1 False [(0, 0)])) = 1" by (simp add: py_eval)
qed

theorem self_loop_inert_witness:
  "hamiltonian_path (snd (add_edge main_g1 2 2)) = Inr (Some [0, 1, 2, 3, 4])"
proof -
  have "is_vertex main_g1 2" by (simp add: main_g1_def py_eval)
  from self_loop_inert[OF wf_main_g1 this] show ?thesis by (simp add: main_g1_path_eval)
qed

theorem parallel_edge_inert_witness:
  "hamiltonian_path (snd (add_edge main_g1 0 1)) = Inr (Some [0, 1, 2, 3, 4])"
proof -
  have u: "is_vertex main_g1 0" and v: "is_vertex main_g1 1"
    and e: "1 \<in> set (nbrs main_g1 0)" and r: "\<not> directed main_g1 \<longrightarrow> 0 \<in> set (nbrs main_g1 1)"
    by (simp_all add: main_g1_def py_eval)
  from parallel_edge_inert[OF wf_main_g1 u v e r] show ?thesis by (simp add: main_g1_path_eval)
qed

theorem last_step_unchecked_witness:
  "backtrack (snd (build_graph 3 True [(0, 2), (2, -1)])) 2 (state_of [0, 2]) =
     Inr (Some [0, 2, -1], state_of [0, 2, -1])"
proof -
  have a: "int (length [0, 2::int]) + 1 = n (snd (build_graph 3 True [(0, 2), (2, -1)]))"
    by (simp add: alias_graph)
  have b: "py_get (adj (snd (build_graph 3 True [(0, 2), (2, -1)]))) 2 = Inr [-1]"
    by (simp add: alias_graph)
  have c: "filter (\<lambda>w. w \<notin> set [0, 2]) [-1] = -1 # ([] :: int list)" by simp
  from last_step_unchecked[OF a b c] show ?thesis by simp
qed

theorem dangling_arc_raises_witness:
  "is_ham_path (snd (build_graph 3 True [(0, 5), (1, 2), (2, 0)])) [1, 2, 0] \<and>
   hamiltonian_path (snd (build_graph 3 True [(0, 5), (1, 2), (2, 0)])) = Inl IndexError"
proof -
  have g: "adj (snd (build_graph 3 True [(0, 5), (1, 2), (2, 0)])) = [[5], [2], [0]]"
    "n (snd (build_graph 3 True [(0, 5), (1, 2), (2, 0)])) = 3"
    by (simp_all add: py_eval)
  have a: "2 < n (snd (build_graph 3 True [(0, 5), (1, 2), (2, 0)]))" by (simp add: g)
  have b: "nat (n (snd (build_graph 3 True [(0, 5), (1, 2), (2, 0)]))) \<le>
           length (adj (snd (build_graph 3 True [(0, 5), (1, 2), (2, 0)])))" by (simp add: g)
  have c: "filter (\<lambda>w. w \<noteq> 0) (nbrs (snd (build_graph 3 True [(0, 5), (1, 2), (2, 0)])) 0) = 5 # []"
    by (simp add: g nbrs_def)
  have d: "py_idx (length (adj (snd (build_graph 3 True [(0, 5), (1, 2), (2, 0)])))) 5 = None"
    by (simp add: g py_idx_def)
  have "is_ham_path (snd (build_graph 3 True [(0, 5), (1, 2), (2, 0)])) [1, 2, 0]"
    by (simp add: is_ham_path_def g is_vertex_def is_edge_def nbrs_def)
  with dangling_arc_raises[OF a b c d] show ?thesis by simp
qed

theorem search_index_safe_total_witness:
  "nat (n (snd (build_graph 3 True [(0, 2), (2, -1)]))) \<le> length (adj (snd (build_graph 3 True [(0, 2), (2, -1)]))) \<and>
   adj (snd (build_graph 3 True [(0, 2), (2, -1)])) = [[2], [], [-1]] \<and>
   (\<exists>r. hamiltonian_path (snd (build_graph 3 True [(0, 2), (2, -1)])) = Inr r)"
proof -
  have a: "nat (n (snd (build_graph 3 True [(0, 2), (2, -1)]))) \<le> length (adj (snd (build_graph 3 True [(0, 2), (2, -1)])))"
    by (simp add: alias_graph)
  have b: "\<forall>xs \<in> set (adj (snd (build_graph 3 True [(0, 2), (2, -1)]))). \<forall>w \<in> set xs.
      py_idx (length (adj (snd (build_graph 3 True [(0, 2), (2, -1)])))) w \<noteq> None"
    by (simp add: alias_graph py_idx_def)
  show ?thesis using a alias_graph search_index_safe_total[OF a b] by blast
qed

end
